theory Spec2Isabelle
  imports Complex_Main
begin

unbundle bit_operations_syntax

section \<open>Python values and errors\<close>

text \<open>
  The controller of \<^verbatim>\<open>labjack_stream_control.py\<close> computes with Python floats and
  unbounded integers. Floats are idealised as \<^typ>\<open>real\<close>, integers are \<^typ>\<open>int\<close>.
  Exceptions are values: \<open>LJMError code\<close> is \<^verbatim>\<open>ljm.LJMError\<close> with its
  \<^verbatim>\<open>errorCode\<close>, \<open>ValueError\<close> is the configuration error raised by the sine
  set-up, \<open>ZeroDivisionError\<close> is Python's division by zero.
\<close>

datatype py_error = LJMError int | ValueError | ZeroDivisionError

text \<open>\<^verbatim>\<open>round(x)\<close> with one argument: the nearest integer, ties to the even one.\<close>

definition py_round :: "real \<Rightarrow> int" where
  "py_round x =
     (let f = \<lfloor>x\<rfloor>; r = x - of_int f
      in if r < 1 / 2 then f else if 1 / 2 < r then f + 1 else if even f then f else f + 1)"

text \<open>\<^verbatim>\<open>int(x)\<close> on a float: truncation toward zero.\<close>

definition py_int :: "real \<Rightarrow> int" where
  "py_int x = (if 0 \<le> x then \<lfloor>x\<rfloor> else \<lceil>x\<rceil>)"

text \<open>
  The timestamps of the log are computed in binary64 arithmetic, where the rounding of
  each operation is visible in the result. \<open>b64 x\<close> is the binary64 number nearest to
  \<open>x\<close>, ties to the even significand: \<open>b64_scale\<close> brings the magnitude to a
  significand \<open>m\<close> with \<open>2 ^ 52 \<le> m < 2 ^ 53\<close> and an exponent \<open>e\<close> with
  \<open>\<bar>x\<bar> = m * 2 ^ e\<close>, stopping at the subnormal exponent \<open>- 1074\<close>, and the
  significand is rounded to an integer. The fuel covers the whole exponent range.
  Overflow to infinity is not modelled: the results are those of Python below
  \<open>2 ^ 1024\<close> in magnitude. A float operation on two floats is the rounding of the exact
  result; the conversion of an integer rounds it likewise.
\<close>

fun b64_scale :: "nat \<Rightarrow> real \<Rightarrow> int \<Rightarrow> real \<times> int" where
  "b64_scale 0 m e = (m, e)"
| "b64_scale (Suc fuel) m e =
     (if m < 2 ^ 52 then (if e \<le> - 1074 then (m, e) else b64_scale fuel (2 * m) (e - 1))
      else if 2 ^ 53 \<le> m then b64_scale fuel (m / 2) (e + 1)
      else (m, e))"

definition b64 :: "real \<Rightarrow> real" where
  "b64 x =
     (if x = 0 then 0
      else
        let (m, e) = b64_scale 2200 \<bar>x\<bar> 0;
            q = of_int (py_round m)
        in sgn x * (if 0 \<le> e then q * 2 ^ nat e else q / 2 ^ nat (- e)))"

definition float_div :: "real \<Rightarrow> real \<Rightarrow> real" where
  "float_div a b = b64 (a / b)"

definition float_mul :: "real \<Rightarrow> real \<Rightarrow> real" where
  "float_mul a b = b64 (a * b)"

definition float_of_int :: "int \<Rightarrow> real" where
  "float_of_int i = b64 (of_int i)"

section \<open>Module constants\<close>

definition STREAM_SCAN_RATE_HZ :: real where "STREAM_SCAN_RATE_HZ = 4000"
definition SCANS_PER_READ :: nat where "SCANS_PER_READ = 400"
definition LED_FREQUENCY_HZ :: real where "LED_FREQUENCY_HZ = 250"
definition LED_AMPLITUDE_V :: real where "LED_AMPLITUDE_V = 2"
definition LED_OFFSET_V :: real where "LED_OFFSET_V = 5 / 2"
definition LED_IDLE_V :: real where "LED_IDLE_V = 0"
definition PHOTODETECTOR_AIN :: string where "PHOTODETECTOR_AIN = ''AIN0''"
definition CAMERA_TTL_AIN :: string where "CAMERA_TTL_AIN = ''AIN1''"
definition LED_MONITOR_AIN :: string where "LED_MONITOR_AIN = ''AIN2''"
definition LED_DAC_CHANNEL :: string where "LED_DAC_CHANNEL = ''DAC0''"
definition STREAM_OUT_INDEX :: nat where "STREAM_OUT_INDEX = 0"
definition TTL_STREAM_OUT_INDEX :: nat where "TTL_STREAM_OUT_INDEX = 1"
definition START_PULSE_TARGET :: string where "START_PULSE_TARGET = ''FIO_STATE''"
definition FIO0_MASK_ALLOW :: int where "FIO0_MASK_ALLOW = 0xFE"
definition START_PULSE_WIDTH_S :: real where "START_PULSE_WIDTH_S = 1 / 1000"
definition CAMERA_TRIGGER_RATE_HZ :: real where "CAMERA_TRIGGER_RATE_HZ = 30"
definition NUM_CAMERA_FRAMES :: int where "NUM_CAMERA_FRAMES = 300"

section \<open>Controller state\<close>

record StreamConfig =
  scan_rate_hz :: real
  scans_per_read :: nat
  input_names :: "string list"
  stream_out_names :: "string list"

definition build_scan_list :: "StreamConfig \<Rightarrow> string list \<Rightarrow> string list" where
  "build_scan_list cfg enabled_stream_outs = input_names cfg @ enabled_stream_outs"

record controller =
  device_type :: int
  stream_config :: StreamConfig
  scan_list_addresses :: "int list"
  actual_scan_rate :: real
  ttl_waveform :: "int list option"
  ttl_duration_s :: real
  ttl_num_pulses :: int
  num_inputs :: nat

section \<open>Waveform generation\<close>

text \<open>
  The sample computation of \<^verbatim>\<open>configure_led_stream_out\<close> (the lines before the buffer
  load). The source reads the scan rate, frequency, amplitude and offset from the module
  constants; they are parameters here so that the computation can be stated for every
  configuration. The division raises \<^verbatim>\<open>ZeroDivisionError\<close> at frequency zero.
\<close>

definition led_waveform :: "real \<Rightarrow> real \<Rightarrow> real \<Rightarrow> real \<Rightarrow> py_error + real list" where
  "led_waveform scan_rate frequency amplitude offset =
     (if frequency = 0 then Inl ZeroDivisionError
      else
        let samples_per_period = py_int (scan_rate / frequency)
        in if samples_per_period < 2 then Inl ValueError
           else Inr (map (\<lambda>i. offset + amplitude * sin ((2 * pi * real i) / real_of_int samples_per_period))
                       [0..<nat samples_per_period]))"

text \<open>
  The two sample counts that \<^verbatim>\<open>prepare_ttl_waveform\<close> computes, and its two
  port-words: the inhibit mask shifted into the upper byte, the level of FIO0 in bit 0.
\<close>

definition ttl_samples_per_period :: "real \<Rightarrow> int" where
  "ttl_samples_per_period rate_hz = max 1 (py_round (STREAM_SCAN_RATE_HZ / max rate_hz (1 / 10)))"

definition ttl_high_samples :: "real \<Rightarrow> real \<Rightarrow> int" where
  "ttl_high_samples rate_hz pulse_width_s =
     min (max 1 (py_round (pulse_width_s * STREAM_SCAN_RATE_HZ))) (ttl_samples_per_period rate_hz)"

definition high_word :: int where
  "high_word = (push_bit 8 FIO0_MASK_ALLOW) OR 0x01"

definition low_word :: int where
  "low_word = push_bit 8 FIO0_MASK_ALLOW"

definition prepare_ttl_waveform :: "controller \<Rightarrow> int \<Rightarrow> real \<Rightarrow> real \<Rightarrow> controller" where
  "prepare_ttl_waveform c num_pulses rate_hz pulse_width_s =
     (if num_pulses \<le> 0
      then c\<lparr>ttl_waveform := None, ttl_duration_s := 0, ttl_num_pulses := 0\<rparr>
      else
        let samples_per_period = ttl_samples_per_period rate_hz;
            high_samples = ttl_high_samples rate_hz pulse_width_s;
            waveform = replicate (nat high_samples) high_word
                       @ replicate (nat (samples_per_period - high_samples)) low_word
        in c\<lparr>ttl_num_pulses := num_pulses,
             ttl_waveform := Some waveform,
             ttl_duration_s := of_int num_pulses / max rate_hz (1 / 10)\<rparr>)"

definition ttl_duration_seconds :: "controller \<Rightarrow> real" where
  "ttl_duration_seconds c = ttl_duration_s c"


section \<open>The LJM library and the device\<close>

text \<open>
  The \<^verbatim>\<open>labjack.ljm\<close> library is not part of the repository; the controller uses it as
  a register access service. The device is modelled as an explicit state:
  \<^item> \<open>registers\<close> holds the last value successfully written to each named register;
  \<^item> \<open>stream_running\<close> says whether the hardware scan loop is active;
  \<^item> \<open>outcomes\<close> scripts the results of the coming library calls, one entry per call:
    \<open>None\<close> lets the call succeed, \<open>Some code\<close> makes it raise \<open>LJMError code\<close>;
    when the script is used up, calls succeed;
  \<^item> \<open>journal\<close> records every library call that was attempted and every host sleep;
  \<^item> \<open>address_of\<close> is the library's name table, \<open>granted_rate\<close> the scan rate the
    device reports when a stream starts, \<open>feed\<close> the answers of the successive stream
    reads (data, device backlog, library backlog), \<open>handle_device_type\<close> the device type
    reported for the handle.
\<close>

datatype event =
    Open
  | HandleInfo
  | Write string real
  | WriteNames "string list" "real list"
  | StreamStart nat "int list" real
  | StreamRead
  | StreamStop
  | Sleep real
  | Close

record device =
  registers :: "string \<Rightarrow> real option"
  stream_running :: bool
  outcomes :: "int option list"
  journal :: "event list"
  address_of :: "string \<Rightarrow> int"
  granted_rate :: real
  feed :: "nat \<Rightarrow> real list \<times> int \<times> int"
  reads_done :: nat
  handle_device_type :: int

text \<open>Constants of the library used by the controller.\<close>

definition MBE2_ILLEGAL_DATA_ADDRESS :: int where "MBE2_ILLEGAL_DATA_ADDRESS = 1202"
definition STREAM_NOT_RUNNING :: int where "STREAM_NOT_RUNNING = 2620"
definition dtT4 :: int where "dtT4 = 4"

text \<open>
  Computations that may raise, over a state \<open>'s\<close>: the device alone for the register
  helpers, the controller together with the device for the methods that assign fields.
  The state reached when an exception is raised is kept, since the writes and field
  assignments made before the raise have happened.
\<close>

type_synonym ('s, 'a) run = "'s \<Rightarrow> (py_error + 'a) \<times> 's"

definition returns :: "'a \<Rightarrow> ('s, 'a) run" where
  "returns x s = (Inr x, s)"

definition raises :: "py_error \<Rightarrow> ('s, 'a) run" where
  "raises e s = (Inl e, s)"

definition andThen :: "('s, 'a) run \<Rightarrow> ('a \<Rightarrow> ('s, 'b) run) \<Rightarrow> ('s, 'b) run" where
  "andThen m f s = (case m s of (Inl e, s') \<Rightarrow> (Inl e, s') | (Inr x, s') \<Rightarrow> f x s')"

text \<open>\<^verbatim>\<open>try: ... except ljm.LJMError: pass\<close>\<close>

definition except_LJMError_pass :: "('s, unit) run \<Rightarrow> ('s, unit) run" where
  "except_LJMError_pass m s =
     (case m s of
        (Inl (LJMError code), s') \<Rightarrow> (Inr (), s')
      | r \<Rightarrow> r)"

definition on_device :: "(device, 'a) run \<Rightarrow> (controller \<times> device, 'a) run" where
  "on_device m = (\<lambda>(c, d). case m d of (r, d') \<Rightarrow> (r, (c, d')))"

definition assign :: "(controller \<Rightarrow> controller) \<Rightarrow> (controller \<times> device, unit) run" where
  "assign f = (\<lambda>(c, d). (Inr (), (f c, d)))"

definition ljm_call :: "event \<Rightarrow> (device, unit) run" where
  "ljm_call ev d =
     (case outcomes d of
        [] \<Rightarrow> (Inr (), d\<lparr>journal := journal d @ [ev]\<rparr>)
      | None # rest \<Rightarrow> (Inr (), d\<lparr>outcomes := rest, journal := journal d @ [ev]\<rparr>)
      | Some code # rest \<Rightarrow>
          (Inl (LJMError code), d\<lparr>outcomes := rest, journal := journal d @ [ev]\<rparr>))"

definition eWriteName :: "string \<Rightarrow> real \<Rightarrow> (device, unit) run" where
  "eWriteName name v =
     andThen (ljm_call (Write name v))
       (\<lambda>_ d. (Inr (), d\<lparr>registers := (registers d)(name \<mapsto> v)\<rparr>))"

definition eWriteNames :: "string list \<Rightarrow> real list \<Rightarrow> (device, unit) run" where
  "eWriteNames names vals =
     andThen (ljm_call (WriteNames names vals))
       (\<lambda>_ d. (Inr (), d\<lparr>registers := fold (\<lambda>(n, v) m. m(n \<mapsto> v)) (zip names vals) (registers d)\<rparr>))"

definition nameToAddress :: "string \<Rightarrow> (device, int) run" where
  "nameToAddress name d = (Inr (address_of d name), d)"

definition namesToAddresses :: "string list \<Rightarrow> (device, int list) run" where
  "namesToAddresses names d = (Inr (map (address_of d) names), d)"

text \<open>
  Stopping a stream that is not running is an error of the library
  (\<^verbatim>\<open>STREAM_NOT_RUNNING\<close>); \<^verbatim>\<open>_configure_channels\<close> guards its call for that reason.
\<close>

definition eStreamStop :: "(device, unit) run" where
  "eStreamStop d =
     (if \<not> stream_running d
      then (Inl (LJMError STREAM_NOT_RUNNING), d\<lparr>journal := journal d @ [StreamStop]\<rparr>)
      else andThen (ljm_call StreamStop) (\<lambda>_ d'. (Inr (), d'\<lparr>stream_running := False\<rparr>)) d)"

definition eStreamStart :: "nat \<Rightarrow> int list \<Rightarrow> real \<Rightarrow> (device, real) run" where
  "eStreamStart scans addresses rate =
     andThen (ljm_call (StreamStart scans addresses rate))
       (\<lambda>_ d. (Inr (granted_rate d), d\<lparr>stream_running := True\<rparr>))"

definition eStreamRead :: "(device, real list \<times> int \<times> int) run" where
  "eStreamRead =
     andThen (ljm_call StreamRead)
       (\<lambda>_ d. (Inr (feed d (reads_done d)), d\<lparr>reads_done := Suc (reads_done d)\<rparr>))"

definition sleep :: "real \<Rightarrow> (device, unit) run" where
  "sleep t d = (Inr (), d\<lparr>journal := journal d @ [Sleep t]\<rparr>)"

section \<open>Register helpers of the controller\<close>

definition write_optional_register :: "string \<Rightarrow> real \<Rightarrow> (device, unit) run" where
  "write_optional_register name v d =
     (case eWriteName name v d of
        (Inl (LJMError code), d') \<Rightarrow>
          if code = MBE2_ILLEGAL_DATA_ADDRESS then (Inr (), d') else (Inl (LJMError code), d')
      | r \<Rightarrow> r)"

definition configure_fio0_direction :: "(device, unit) run" where
  "configure_fio0_direction =
     (let v = (push_bit 8 FIO0_MASK_ALLOW) OR 0x01
      in write_optional_register ''FIO_DIRECTION'' (of_int v))"

definition fio0_state_value :: "bool \<Rightarrow> int" where
  "fio0_state_value high = (push_bit 8 FIO0_MASK_ALLOW) OR (if high then 0x01 else 0x00)"

definition set_fio0_state :: "bool \<Rightarrow> (device, unit) run" where
  "set_fio0_state high = write_optional_register ''FIO_STATE'' (of_int (fio0_state_value high))"

text \<open>The decimal text of an index, as the f-string \<^verbatim>\<open>f"STREAM_OUT{index}"\<close> prints it.\<close>

fun str_nat :: "nat \<Rightarrow> string" where
  "str_nat n =
     (if n < 10 then [''0123456789'' ! n]
      else str_nat (n div 10) @ [''0123456789'' ! (n mod 10)])"

declare str_nat.simps [simp del]

definition stream_out_base :: "nat \<Rightarrow> string" where
  "stream_out_base index = ''STREAM_OUT'' @ str_nat index"

section \<open>Stream-out buffer loading\<close>

text \<open>
  \<^verbatim>\<open>int(math.ceil(math.log2(n)))\<close> for an integer \<open>n \<ge> 1\<close>: the least \<open>k\<close> with
  \<open>n \<le> 2 ^ k\<close>, computed exactly. The float computation agrees with it up to 8192
  and gives at least 14 above, which the bound of 8192 hides; \<open>stream_out_buffer_size\<close>
  is the size \<^verbatim>\<open>_configure_stream_out\<close> computes from the waveform's length.
\<close>

fun ceil_log2 :: "nat \<Rightarrow> nat" where
  "ceil_log2 n = (if n \<le> 1 then 0 else Suc (ceil_log2 ((n + 1) div 2)))"

declare ceil_log2.simps [simp del]

definition stream_out_buffer_size :: "nat \<Rightarrow> nat" where
  "stream_out_buffer_size len =
     (let buffer_size = max 512 (2 ^ ceil_log2 (max 1 len))
      in min buffer_size 8192)"

text \<open>
  The retry loop around one sample write: \<^verbatim>\<open>for attempt in range(3)\<close>, leaving the
  loop on success, raising on the failure of attempt 2, sleeping and going on otherwise.
\<close>

fun write_attempts :: "nat list \<Rightarrow> string \<Rightarrow> real \<Rightarrow> (device, unit) run" where
  "write_attempts [] buffer_reg v d = (Inr (), d)"
| "write_attempts (attempt # later) buffer_reg v d =
     (case eWriteName buffer_reg v d of
        (Inr u, d') \<Rightarrow> (Inr (), d')
      | (Inl (LJMError code), d') \<Rightarrow>
          if attempt = 2 then (Inl (LJMError code), d')
          else write_attempts later buffer_reg v (snd (sleep (1 / 100) d'))
      | (Inl e, d') \<Rightarrow> (Inl e, d'))"

fun load_samples :: "string \<Rightarrow> real list \<Rightarrow> (device, unit) run" where
  "load_samples buffer_reg [] d = (Inr (), d)"
| "load_samples buffer_reg (v # vs) d =
     (case write_attempts [0..<3] buffer_reg v d of
        (Inl e, d') \<Rightarrow> (Inl e, d')
      | (Inr u, d') \<Rightarrow> load_samples buffer_reg vs d')"

definition configure_stream_out ::
  "nat \<Rightarrow> string \<Rightarrow> real list \<Rightarrow> bool \<Rightarrow> string \<Rightarrow> (device, unit) run" where
  "configure_stream_out index target_name waveform loop value_type =
     (let base = stream_out_base index
      in andThen (nameToAddress target_name) (\<lambda>target_addr.
         andThen (eWriteName (base @ ''_ENABLE'') 0) (\<lambda>_.
         andThen (eWriteName (base @ ''_TARGET'') (of_int target_addr)) (\<lambda>_.
         andThen (eWriteName (base @ ''_BUFFER_SIZE'')
                    (of_nat (stream_out_buffer_size (length waveform)))) (\<lambda>_.
         andThen (eWriteName (base @ ''_ENABLE'') 1) (\<lambda>_.
         andThen (eWriteName (base @ ''_LOOP_SIZE'') (of_nat (length waveform))) (\<lambda>_.
         andThen (load_samples
                    (if value_type = ''f32'' then base @ ''_BUFFER_F32''
                     else base @ ''_BUFFER_U16'') waveform) (\<lambda>_.
         if loop then eWriteName (base @ ''_SET_LOOP'') 1 else returns ()))))))))"

definition configure_led_stream_out :: "(device, unit) run" where
  "configure_led_stream_out =
     (\<lambda>d. case led_waveform STREAM_SCAN_RATE_HZ LED_FREQUENCY_HZ LED_AMPLITUDE_V LED_OFFSET_V of
             Inl e \<Rightarrow> (Inl e, d)
           | Inr waveform \<Rightarrow>
               configure_stream_out STREAM_OUT_INDEX LED_DAC_CHANNEL waveform True ''f32'' d)"

text \<open>
  \<^verbatim>\<open>if not self._ttl_waveform: return\<close> leaves on \<^verbatim>\<open>None\<close> and on the empty list.
  The library converts the integer port-words to its floating-point value type.
\<close>

definition configure_ttl_stream_out :: "(controller \<times> device, unit) run" where
  "configure_ttl_stream_out =
     (\<lambda>(c, d). case ttl_waveform c of
        None \<Rightarrow> (Inr (), (c, d))
      | Some [] \<Rightarrow> (Inr (), (c, d))
      | Some waveform \<Rightarrow>
          on_device (configure_stream_out TTL_STREAM_OUT_INDEX START_PULSE_TARGET
                       (map of_int waveform) True ''u16'') (c, d))"


section \<open>Stream session controller\<close>

definition configure_channels :: "(controller \<times> device, unit) run" where
  "configure_channels =
     (\<lambda>(c, d).
        andThen
          (if device_type c = dtT4
           then on_device (eWriteNames [''STREAM_SETTLING_US'', ''STREAM_RESOLUTION_INDEX''] [0, 0])
           else
             andThen (on_device (except_LJMError_pass eStreamStop)) (\<lambda>_.
             andThen (on_device (eWriteName ''STREAM_TRIGGER_INDEX'' 0)) (\<lambda>_.
             andThen (on_device (eWriteName ''STREAM_CLOCK_SOURCE'' 0)) (\<lambda>_.
             andThen (on_device (write_optional_register ''DIO_ANALOG_ENABLE'' 0)) (\<lambda>_.
             on_device
               (eWriteNames
                  ([''STREAM_RESOLUTION_INDEX'', ''STREAM_SETTLING_US'']
                   @ concat (map (\<lambda>ain. [ain @ ''_RANGE'', ain @ ''_NEGATIVE_CH''])
                               (input_names (stream_config c))))
                  ([0, 0] @ concat (map (\<lambda>ain. [10, 199]) (input_names (stream_config c))))))))))
          (\<lambda>_.
             andThen (on_device configure_fio0_direction) (\<lambda>_.
             andThen (on_device (eWriteName LED_DAC_CHANNEL LED_IDLE_V)) (\<lambda>_.
             andThen (on_device (set_fio0_state False)) (\<lambda>_.
             assign (\<lambda>c. c\<lparr>scan_list_addresses := []\<rparr>)))))
          (c, d))"

text \<open>
  The constructor: open the device, read its type, set the fields, configure the
  channels. It returns the new controller with the device, or the exception.
\<close>

definition new_controller :: "device \<Rightarrow> (py_error + controller) \<times> device" where
  "new_controller d =
     (case ljm_call Open d of
        (Inl e, d1) \<Rightarrow> (Inl e, d1)
      | (Inr u, d1) \<Rightarrow>
          (case ljm_call HandleInfo d1 of
             (Inl e, d2) \<Rightarrow> (Inl e, d2)
           | (Inr u', d2) \<Rightarrow>
               (let cfg = \<lparr>scan_rate_hz = STREAM_SCAN_RATE_HZ,
                           scans_per_read = SCANS_PER_READ,
                           input_names = [PHOTODETECTOR_AIN, CAMERA_TTL_AIN, LED_MONITOR_AIN],
                           stream_out_names = [stream_out_base STREAM_OUT_INDEX]\<rparr>;
                    c = \<lparr>device_type = handle_device_type d2,
                         stream_config = cfg,
                         scan_list_addresses = [],
                         actual_scan_rate = scan_rate_hz cfg,
                         ttl_waveform = None,
                         ttl_duration_s = 0,
                         ttl_num_pulses = 0,
                         num_inputs = 0\<rparr>
                in case configure_channels (c, d2) of
                     (Inl e, (c', d3)) \<Rightarrow> (Inl e, d3)
                   | (Inr u'', (c', d3)) \<Rightarrow>
                       (Inr (c'\<lparr>num_inputs := length (input_names (stream_config c'))\<rparr>), d3))))"

definition start_stream :: "(controller \<times> device, real) run" where
  "start_stream =
     (\<lambda>(c, d).
        let enabled_streams =
              [stream_out_base STREAM_OUT_INDEX]
              @ (case ttl_waveform c of
                   None \<Rightarrow> []
                 | Some [] \<Rightarrow> []
                 | Some w \<Rightarrow> [stream_out_base TTL_STREAM_OUT_INDEX]);
            scan_list_names = build_scan_list (stream_config c) enabled_streams
        in andThen (on_device (namesToAddresses scan_list_names)) (\<lambda>addresses.
           andThen (assign (\<lambda>c. c\<lparr>scan_list_addresses := addresses,
                                   num_inputs := length (input_names (stream_config c))\<rparr>)) (\<lambda>_.
           andThen (on_device configure_led_stream_out) (\<lambda>_.
           andThen (\<lambda>(c, d). case ttl_waveform c of
                                None \<Rightarrow> returns () (c, d)
                              | Some [] \<Rightarrow> returns () (c, d)
                              | Some w \<Rightarrow> configure_ttl_stream_out (c, d)) (\<lambda>_.
           andThen (on_device (eStreamStart (scans_per_read (stream_config c))
                                 addresses (scan_rate_hz (stream_config c)))) (\<lambda>rate.
           andThen (assign (\<lambda>c. c\<lparr>actual_scan_rate := rate\<rparr>)) (\<lambda>_.
           returns rate))))))
          (c, d))"

definition read_stream_chunk :: "(controller \<times> device, real list \<times> real) run" where
  "read_stream_chunk =
     (\<lambda>(c, d).
        andThen (on_device eStreamRead)
          (\<lambda>(data, device_backlog, ljm_backlog). returns (data, actual_scan_rate c)) (c, d))"

definition disable_ttl_stream :: "(controller \<times> device, unit) run" where
  "disable_ttl_stream =
     andThen (on_device (except_LJMError_pass
                (eWriteName (stream_out_base TTL_STREAM_OUT_INDEX @ ''_ENABLE'') 0))) (\<lambda>_.
     andThen (on_device (set_fio0_state False)) (\<lambda>_.
     assign (\<lambda>c. c\<lparr>ttl_waveform := None, ttl_duration_s := 0\<rparr>)))"

definition stop_stream :: "(controller \<times> device, unit) run" where
  "stop_stream =
     andThen disable_ttl_stream (\<lambda>_.
     andThen (on_device eStreamStop) (\<lambda>_.
     andThen (on_device (eWriteName (stream_out_base STREAM_OUT_INDEX @ ''_ENABLE'') 0)) (\<lambda>_.
     on_device (eWriteName LED_DAC_CHANNEL LED_IDLE_V))))"

definition close :: "(controller \<times> device, unit) run" where
  "close =
     andThen (except_LJMError_pass stop_stream) (\<lambda>_.
     on_device (ljm_call Close))"

section \<open>Logging of stream data\<close>

text \<open>
  The closure \<^verbatim>\<open>log_chunk\<close> of \<^verbatim>\<open>run_pulsed_stream\<close> with the variables it captures:
  the CSV writer (absent when no log path is given) with the data rows written so far
  after the header, the running \<^verbatim>\<open>sample_index\<close>, the input count and the sample
  period.
\<close>

datatype csv_row = Row int real "real list"

record logger =
  has_writer :: bool
  rows :: "csv_row list"
  sample_index :: int
  log_num_inputs :: nat
  sample_period :: real

text \<open>
  The set-up made between \<^verbatim>\<open>start_stream\<close> and the read loop; the sample period is
  the float quotient \<^verbatim>\<open>1.0 / controller._actual_scan_rate\<close>, and the timestamp of a row
  is the float product \<^verbatim>\<open>sample_index * sample_period\<close>.
\<close>

definition new_logger :: "controller \<Rightarrow> bool \<Rightarrow> logger" where
  "new_logger c with_log =
     \<lparr>has_writer = with_log,
      rows = [],
      sample_index = 0,
      log_num_inputs = length (input_names (stream_config c)),
      sample_period = (if actual_scan_rate c \<noteq> 0 then float_div 1 (actual_scan_rate c) else 0)\<rparr>"

definition write_scan :: "nat \<Rightarrow> real list \<Rightarrow> nat \<Rightarrow> logger \<Rightarrow> logger" where
  "write_scan scan_width data scan lg =
     (let base = scan * scan_width;
          vals = map (\<lambda>ch. data ! (base + ch)) [0..<log_num_inputs lg]
      in lg\<lparr>rows := rows lg
                       @ [Row (sample_index lg)
                              (float_mul (float_of_int (sample_index lg)) (sample_period lg)) vals],
            sample_index := sample_index lg + 1\<rparr>)"

text \<open>
  \<^verbatim>\<open>scan_width\<close> is the input count, so every index \<open>base + ch\<close> read below is
  inside the truncated data; the floor division raises when there is no input channel.
\<close>

definition log_chunk :: "logger \<Rightarrow> real list \<Rightarrow> py_error + logger" where
  "log_chunk lg data =
     (if \<not> has_writer lg \<or> data = [] then Inr lg
      else
        let scan_width = log_num_inputs lg;
            data' = take (SCANS_PER_READ * scan_width) data
        in if scan_width = 0 then Inl ZeroDivisionError
           else
             let scans = length data' div scan_width
             in Inr (fold (write_scan scan_width data') [0..<scans] lg))"


text \<open>
  The read loop of \<^verbatim>\<open>run_pulsed_stream\<close> with a number of iterations in place of the
  clock: the results of the successive \<^verbatim>\<open>read_stream_chunk\<close> calls, ending at the first
  one that raises (the exception leaves the loop).
\<close>

fun read_chunks :: "nat \<Rightarrow> controller \<times> device \<Rightarrow> (py_error + real list \<times> real) list" where
  "read_chunks 0 s = []"
| "read_chunks (Suc n) s =
     (case read_stream_chunk s of
        (Inl e, s') \<Rightarrow> [Inl e]
      | (Inr x, s') \<Rightarrow> Inr x # read_chunks n s')"

section \<open>Concrete devices and controllers\<close>

text \<open>The result scripted for the \<open>i\<close>-th coming library call.\<close>

definition outcome_at :: "device \<Rightarrow> nat \<Rightarrow> int option" where
  "outcome_at d i = (if i < length (outcomes d) then outcomes d ! i else None)"

text \<open>
  A T7 on the bench: no stream running, no register written yet, no fault scripted. Its
  clock grants 4000 scans per second, and the \<open>n\<close>-th read reports backlogs of
  \<open>1000 * (n + 1)\<close> scans.
\<close>

definition bench_device :: device where
  "bench_device =
     \<lparr>registers = (\<lambda>name. None),
      stream_running = False,
      outcomes = [],
      journal = [],
      address_of = (\<lambda>name. 0),
      granted_rate = 4000,
      feed = (\<lambda>n. ([1 / 2, 5, 5 / 2], 1000 * (int n + 1), 1000 * (int n + 1))),
      reads_done = 0,
      handle_device_type = 7\<rparr>"

text \<open>The controller as the constructor leaves it, before any waveform is prepared.\<close>

definition bench_controller :: controller where
  "bench_controller =
     \<lparr>device_type = 7,
      stream_config =
        \<lparr>scan_rate_hz = STREAM_SCAN_RATE_HZ,
         scans_per_read = SCANS_PER_READ,
         input_names = [PHOTODETECTOR_AIN, CAMERA_TTL_AIN, LED_MONITOR_AIN],
         stream_out_names = [stream_out_base STREAM_OUT_INDEX]\<rparr>,
      scan_list_addresses = [],
      actual_scan_rate = STREAM_SCAN_RATE_HZ,
      ttl_waveform = None,
      ttl_duration_s = 0,
      ttl_num_pulses = 0,
      num_inputs = 3\<rparr>"


text \<open>The number of write attempts to a register recorded in a journal.\<close>

definition writes_to :: "string \<Rightarrow> event list \<Rightarrow> nat" where
  "writes_to reg js = length (filter (\<lambda>ev. case ev of Write name v \<Rightarrow> name = reg | _ \<Rightarrow> False) js)"

section \<open>Auxiliary facts\<close>

lemma stream_out_base_values:
  "stream_out_base 0 = ''STREAM_OUT0''" "stream_out_base 1 = ''STREAM_OUT1''"
  "stream_out_base (Suc 0) = ''STREAM_OUT1''"
  by (simp_all add: stream_out_base_def str_nat.simps)



lemma prepare_ttl_waveform_Some:
  "0 < n \<Longrightarrow> ttl_waveform (prepare_ttl_waveform c n rate width) =
     Some (replicate (nat (ttl_high_samples rate width)) high_word
           @ replicate (nat (ttl_samples_per_period rate - ttl_high_samples rate width)) low_word)"
  by (simp add: prepare_ttl_waveform_def Let_def)


lemma spp30: "ttl_samples_per_period 30 = 133"
  by (simp add: ttl_samples_per_period_def STREAM_SCAN_RATE_HZ_def py_round_def Let_def)

lemma high30: "ttl_high_samples 30 (1 / 1000) = 4"
  by (simp add: ttl_high_samples_def spp30 STREAM_SCAN_RATE_HZ_def py_round_def Let_def)

lemma fio0_state_value_bits:
  "drop_bit 8 (fio0_state_value high) = 0xFE \<and> (fio0_state_value high) AND 0xFF = (if high then 1 else 0)"
  by (simp add: fio0_state_value_def FIO0_MASK_ALLOW_def)

lemma words_eq: "high_word = fio0_state_value True" "low_word = fio0_state_value False"
  by (simp_all add: fio0_state_value_def high_word_def low_word_def)

lemma ljm_call_journal: "journal (snd (ljm_call ev d)) = journal d @ [ev]"
  by (simp add: ljm_call_def split: list.splits option.splits)

lemma eWriteName_journal: "journal (snd (eWriteName name v d)) = journal d @ [Write name v]"
  by (simp add: eWriteName_def andThen_def ljm_call_def split: list.splits option.splits)

lemma write_optional_register_journal:
  "journal (snd (write_optional_register name v d)) = journal d @ [Write name v]"
  using eWriteName_journal [of name v d]
  by (auto simp add: write_optional_register_def split: prod.splits sum.splits py_error.splits)

lemma andThen_Inr:
  "andThen m f s = (Inr y, s') \<Longrightarrow> \<exists>x s1. m s = (Inr x, s1) \<and> f x s1 = (Inr y, s')"
  by (auto simp add: andThen_def split: prod.splits sum.splits)

lemma eWriteName_Inr:
  "eWriteName name v d = (Inr u, d') \<Longrightarrow> registers d' = (registers d)(name \<mapsto> v)"
  by (auto simp add: eWriteName_def andThen_def ljm_call_def split: list.splits option.splits)

lemma eWriteName_other:
  "eWriteName name v d = (r, d') \<Longrightarrow> other \<noteq> name \<Longrightarrow> registers d' other = registers d other"
  by (auto simp add: eWriteName_def andThen_def ljm_call_def split: list.splits option.splits)

lemma write_attempts_other:
  "write_attempts as reg v d = (r, d') \<Longrightarrow> other \<noteq> reg \<Longrightarrow> registers d' other = registers d other"
proof (induction as arbitrary: d)
  case Nil
  then show ?case by simp
next
  case (Cons a as)
  obtain r1 d1 where w: "eWriteName reg v d = (r1, d1)" by (cases "eWriteName reg v d")
  have keep: "registers d1 other = registers d other"
    using eWriteName_other [OF w Cons.prems(2)] .
  show ?case
  proof (cases r1)
    case (Inr u)
    with Cons.prems(1) w have "d' = d1" by simp
    with keep show ?thesis by simp
  next
    case (Inl e)
    show ?thesis
    proof (cases e)
      case (LJMError code)
      show ?thesis
      proof (cases "a = 2")
        case True
        with Cons.prems(1) w Inl LJMError have "d' = d1" by simp
        with keep show ?thesis by simp
      next
        case False
        with Cons.prems(1) w Inl LJMError
        have "write_attempts as reg v (snd (sleep (1 / 100) d1)) = (r, d')" by simp
        from Cons.IH [OF this Cons.prems(2)] keep show ?thesis by (simp add: sleep_def)
      qed
    next
      case ValueError
      with Cons.prems(1) w Inl have "d' = d1" by simp
      with keep show ?thesis by simp
    next
      case ZeroDivisionError
      with Cons.prems(1) w Inl have "d' = d1" by simp
      with keep show ?thesis by simp
    qed
  qed
qed

lemma load_samples_other:
  "load_samples reg w d = (r, d') \<Longrightarrow> other \<noteq> reg \<Longrightarrow> registers d' other = registers d other"
proof (induction w arbitrary: d)
  case Nil
  then show ?case by simp
next
  case (Cons v vs)
  obtain r1 d1 where w: "write_attempts [0..<3] reg v d = (r1, d1)"
    by (cases "write_attempts [0..<3] reg v d")
  have keep: "registers d1 other = registers d other"
    using write_attempts_other [OF w Cons.prems(2)] .
  show ?case
  proof (cases r1)
    case (Inl e)
    with Cons.prems(1) w have "d' = d1" by simp
    with keep show ?thesis by simp
  next
    case (Inr u)
    with Cons.prems(1) w have "load_samples reg vs d1 = (r, d')" by simp
    from Cons.IH [OF this Cons.prems(2)] keep show ?thesis by simp
  qed
qed

lemma configure_stream_out_registers:
  assumes ok: "configure_stream_out index target_name waveform loop value_type d = (Inr u, d')"
  shows "registers d' (stream_out_base index @ ''_LOOP_SIZE'') = Some (of_nat (length waveform))"
    and "registers d' (stream_out_base index @ ''_BUFFER_SIZE'')
           = Some (of_nat (stream_out_buffer_size (length waveform)))"
    and "loop \<Longrightarrow> registers d' (stream_out_base index @ ''_SET_LOOP'') = Some 1"
proof -
  let ?b = "stream_out_base index"
  let ?reg = "if value_type = ''f32'' then ?b @ ''_BUFFER_F32'' else ?b @ ''_BUFFER_U16''"
  from ok obtain d1 d2 d3 d4 d5 d6 where
    s3: "eWriteName (?b @ ''_BUFFER_SIZE'') (of_nat (stream_out_buffer_size (length waveform))) d2 = (Inr (), d3)"
    and s4: "eWriteName (?b @ ''_ENABLE'') 1 d3 = (Inr (), d4)"
    and s5: "eWriteName (?b @ ''_LOOP_SIZE'') (of_nat (length waveform)) d4 = (Inr (), d5)"
    and s6: "load_samples ?reg waveform d5 = (Inr (), d6)"
    and s7: "(if loop then eWriteName (?b @ ''_SET_LOOP'') 1 else returns ()) d6 = (Inr u, d')"
    unfolding configure_stream_out_def Let_def nameToAddress_def
    by (auto dest!: andThen_Inr)
  have r3: "registers d3 (?b @ ''_BUFFER_SIZE'') = Some (of_nat (stream_out_buffer_size (length waveform)))"
    using eWriteName_Inr [OF s3] by simp
  have r4: "registers d4 (?b @ ''_BUFFER_SIZE'') = registers d3 (?b @ ''_BUFFER_SIZE'')"
    using eWriteName_other [OF s4] by simp
  have r5: "registers d5 (?b @ ''_BUFFER_SIZE'') = registers d4 (?b @ ''_BUFFER_SIZE'')"
       "registers d5 (?b @ ''_LOOP_SIZE'') = Some (of_nat (length waveform))"
    using eWriteName_other [OF s5] eWriteName_Inr [OF s5] by simp_all
  have r6: "registers d6 (?b @ ''_BUFFER_SIZE'') = registers d5 (?b @ ''_BUFFER_SIZE'')"
       "registers d6 (?b @ ''_LOOP_SIZE'') = registers d5 (?b @ ''_LOOP_SIZE'')"
    using load_samples_other [OF s6] by simp_all
  have r7: "registers d' (?b @ ''_BUFFER_SIZE'') = registers d6 (?b @ ''_BUFFER_SIZE'')"
       "registers d' (?b @ ''_LOOP_SIZE'') = registers d6 (?b @ ''_LOOP_SIZE'')"
       "loop \<Longrightarrow> registers d' (?b @ ''_SET_LOOP'') = Some 1"
    using s7 eWriteName_other [of "?b @ ''_SET_LOOP''" 1 d6 "Inr u" d'] eWriteName_Inr [of "?b @ ''_SET_LOOP''" 1 d6 u d']
    by (auto simp add: returns_def split: if_splits)
  show "registers d' (?b @ ''_LOOP_SIZE'') = Some (of_nat (length waveform))"
    using r5 r6 r7 by simp
  show "registers d' (?b @ ''_BUFFER_SIZE'') = Some (of_nat (stream_out_buffer_size (length waveform)))"
    using r3 r4 r5 r6 r7 by simp
  show "loop \<Longrightarrow> registers d' (?b @ ''_SET_LOOP'') = Some 1"
    using r7 by simp
qed

lemma ceil_log2_upper: "n \<le> 2 ^ ceil_log2 n"
proof (induction n rule: ceil_log2.induct)
  case (1 n)
  show ?case
  proof (cases "n \<le> 1")
    case True
    then show ?thesis by (simp add: ceil_log2.simps)
  next
    case False
    from "1.IH" [OF False] have "(n + 1) div 2 \<le> 2 ^ ceil_log2 ((n + 1) div 2)" .
    moreover have "n \<le> 2 * ((n + 1) div 2)" by arith
    ultimately have "n \<le> 2 * 2 ^ ceil_log2 ((n + 1) div 2)" by linarith
    with False show ?thesis by (simp add: ceil_log2.simps [of n])
  qed
qed

lemma stream_out_buffer_size_pow2:
  "stream_out_buffer_size len = 2 ^ min (max 9 (ceil_log2 (max 1 len))) 13"
proof -
  have a: "max (512::nat) (2 ^ k) = 2 ^ max 9 k" for k
  proof (cases "9 \<le> k")
    case True
    then have "(2::nat) ^ 9 \<le> 2 ^ k" by (rule power_increasing) simp
    with True show ?thesis by (simp add: max_def)
  next
    case False
    then have "k \<le> 9" by simp
    then have "(2::nat) ^ k \<le> 2 ^ 9" by (rule power_increasing) simp
    with False show ?thesis by (simp add: max_def)
  qed
  have b: "min ((2::nat) ^ k) 8192 = 2 ^ min k 13" for k
  proof (cases "k \<le> 13")
    case True
    then have "(2::nat) ^ k \<le> 2 ^ 13" by (rule power_increasing) simp
    with True show ?thesis by (simp add: min_def)
  next
    case False
    then have "13 \<le> k" by simp
    then have "(2::nat) ^ 13 \<le> 2 ^ k" by (rule power_increasing) simp
    with False show ?thesis by (simp add: min_def)
  qed
  show ?thesis by (simp add: stream_out_buffer_size_def Let_def a b)
qed

lemma stream_out_buffer_size_bounds:
  "512 \<le> stream_out_buffer_size len" "stream_out_buffer_size len \<le> 8192"
  by (simp_all add: stream_out_buffer_size_def Let_def)

lemma stream_out_buffer_size_holds:
  "len \<le> 8192 \<Longrightarrow> len \<le> stream_out_buffer_size len"
  using ceil_log2_upper [of "max 1 len"]
  by (simp add: stream_out_buffer_size_def Let_def)

lemma stream_out_buffer_size_clamped:
  "8192 < len \<Longrightarrow> stream_out_buffer_size len = 8192"
  using ceil_log2_upper [of "max 1 len"]
  by (simp add: stream_out_buffer_size_def Let_def)

lemma range3: "[0..<3] = [0, 1, 2]"
  by (simp add: upt_rec)

lemma eWriteName_quiet:
  "outcomes d = [] \<Longrightarrow>
     eWriteName name v d
       = (Inr (), d\<lparr>journal := journal d @ [Write name v], registers := (registers d)(name \<mapsto> v)\<rparr>)"
  by (simp add: eWriteName_def andThen_def ljm_call_def)

lemma load_samples_quiet:
  "outcomes d = [] \<Longrightarrow> fst (load_samples reg w d) = Inr () \<and> outcomes (snd (load_samples reg w d)) = []"
proof (induction w arbitrary: d)
  case Nil
  then show ?case by simp
next
  case (Cons v vs)
  let ?d1 = "d\<lparr>journal := journal d @ [Write reg v], registers := (registers d)(reg \<mapsto> v)\<rparr>"
  have q: "outcomes ?d1 = []" using Cons.prems by simp
  have "load_samples reg (v # vs) d = load_samples reg vs ?d1"
    using Cons.prems by (simp add: range3 eWriteName_quiet)
  with Cons.IH [OF q] show ?case by simp
qed

lemma configure_stream_out_quiet:
  assumes "outcomes d = []"
  shows "fst (configure_stream_out index target_name waveform loop value_type d) = Inr ()"
proof -
  let ?b = "stream_out_base index"
  let ?reg = "if value_type = ''f32'' then ?b @ ''_BUFFER_F32'' else ?b @ ''_BUFFER_U16''"
  define d5 where "d5 =
    snd (eWriteName (?b @ ''_LOOP_SIZE'') (of_nat (length waveform))
      (snd (eWriteName (?b @ ''_ENABLE'') 1
        (snd (eWriteName (?b @ ''_BUFFER_SIZE'') (of_nat (stream_out_buffer_size (length waveform)))
          (snd (eWriteName (?b @ ''_TARGET'') (of_int (address_of d target_name))
            (snd (eWriteName (?b @ ''_ENABLE'') 0 d)))))))))"
  have q5: "outcomes d5 = []"
    using assms by (simp add: d5_def eWriteName_quiet)
  have l: "fst (load_samples ?reg waveform d5) = Inr ()"
          "outcomes (snd (load_samples ?reg waveform d5)) = []"
    using load_samples_quiet [OF q5] by simp_all
  obtain d6 where d6: "load_samples ?reg waveform d5 = (Inr (), d6)" "outcomes d6 = []"
    using l by (cases "load_samples ?reg waveform d5") auto
  have "configure_stream_out index target_name waveform loop value_type d
        = (if loop then eWriteName (?b @ ''_SET_LOOP'') 1 else returns ()) d6"
    using assms d6(1)
    by (simp add: configure_stream_out_def Let_def nameToAddress_def andThen_def eWriteName_quiet d5_def)
  then show ?thesis using d6(2) by (simp add: eWriteName_quiet returns_def)
qed

lemma run_collapse: "fst p = Inr () \<Longrightarrow> p = (Inr (), snd p)"
  by (cases p) simp

lemma on_device_fst: "fst (on_device m (c, d)) = fst (m d)"
  by (simp add: on_device_def split: prod.splits)

lemma configure_ttl_stream_out_quiet:
  "outcomes d = [] \<Longrightarrow> fst (configure_ttl_stream_out (c, d)) = Inr ()"
  by (simp add: configure_ttl_stream_out_def on_device_fst configure_stream_out_quiet
           split: option.splits list.splits)

lemma first_attempt_ok:
  "outcome_at d 0 = None \<Longrightarrow>
     fst (write_attempts [0..<3] reg v d) = Inr ()
     \<and> journal (snd (write_attempts [0..<3] reg v d)) = journal d @ [Write reg v]"
  by (auto simp add: range3 outcome_at_def eWriteName_def andThen_def ljm_call_def sleep_def
           split: list.splits option.splits if_splits)

lemma second_attempt_ok:
  "outcome_at d 0 = Some c0 \<Longrightarrow> outcome_at d 1 = None \<Longrightarrow>
     fst (write_attempts [0..<3] reg v d) = Inr ()
     \<and> journal (snd (write_attempts [0..<3] reg v d))
         = journal d @ [Write reg v, Sleep (1 / 100), Write reg v]"
  by (auto simp add: range3 outcome_at_def eWriteName_def andThen_def ljm_call_def sleep_def
           split: list.splits option.splits if_splits)

lemma third_attempt_ok:
  "outcome_at d 0 = Some c0 \<Longrightarrow> outcome_at d 1 = Some c1 \<Longrightarrow> outcome_at d 2 = None \<Longrightarrow>
     fst (write_attempts [0..<3] reg v d) = Inr ()
     \<and> journal (snd (write_attempts [0..<3] reg v d))
         = journal d @ [Write reg v, Sleep (1 / 100), Write reg v, Sleep (1 / 100), Write reg v]"
  by (auto simp add: range3 outcome_at_def eWriteName_def andThen_def ljm_call_def sleep_def
           split: list.splits option.splits if_splits)

lemma third_attempt_fails:
  "outcome_at d 0 = Some c0 \<Longrightarrow> outcome_at d 1 = Some c1 \<Longrightarrow> outcome_at d 2 = Some c2 \<Longrightarrow>
     fst (write_attempts [0..<3] reg v d) = Inl (LJMError c2)
     \<and> journal (snd (write_attempts [0..<3] reg v d))
         = journal d @ [Write reg v, Sleep (1 / 100), Write reg v, Sleep (1 / 100), Write reg v]"
  by (auto simp add: range3 outcome_at_def eWriteName_def andThen_def ljm_call_def sleep_def
           split: list.splits option.splits if_splits)

lemma write_attempts_count:
  "writes_to reg (journal (snd (write_attempts [0..<3] reg v d))) \<le> writes_to reg (journal d) + 3"
proof (cases "outcome_at d 0")
  case None
  from first_attempt_ok [OF this, of reg v] show ?thesis by (simp add: writes_to_def)
next
  case (Some c0)
  note s0 = this
  show ?thesis
  proof (cases "outcome_at d 1")
    case None
    from second_attempt_ok [OF s0 this, of reg v] show ?thesis by (simp add: writes_to_def)
  next
    case (Some c1)
    note s1 = this
    show ?thesis
    proof (cases "outcome_at d 2")
      case None
      from third_attempt_ok [OF s0 s1 this, of reg v] show ?thesis by (simp add: writes_to_def)
    next
      case (Some c2)
      from third_attempt_fails [OF s0 s1 this, of reg v] show ?thesis by (simp add: writes_to_def)
    qed
  qed
qed

lemma load_samples_step:
  "load_samples reg (v # vs) d =
     (if fst (write_attempts [0..<3] reg v d) = Inr ()
      then load_samples reg vs (snd (write_attempts [0..<3] reg v d))
      else write_attempts [0..<3] reg v d)"
  by (cases "write_attempts [0..<3] reg v d") (auto split: sum.splits)

lemma load_samples_count:
  "writes_to reg (journal (snd (load_samples reg ws d))) \<le> writes_to reg (journal d) + 3 * length ws"
proof (induction ws arbitrary: d)
  case Nil
  show ?case by simp
next
  case (Cons v vs)
  let ?R = "write_attempts [0..<3] reg v d"
  have one: "writes_to reg (journal (snd ?R)) \<le> writes_to reg (journal d) + 3"
    by (rule write_attempts_count)
  show ?case
  proof (cases "fst ?R = Inr ()")
    case True
    then have "load_samples reg (v # vs) d = load_samples reg vs (snd ?R)"
      by (simp add: load_samples_step del: load_samples.simps)
    with Cons.IH [of "snd ?R"] one show ?thesis by simp
  next
    case False
    then have "load_samples reg (v # vs) d = ?R"
      by (simp add: load_samples_step del: load_samples.simps)
    with one show ?thesis by simp
  qed
qed

lemma read_stream_chunk_fst:
  "fst (read_stream_chunk (c, d)) =
     (case outcome_at d 0 of
        Some code \<Rightarrow> Inl (LJMError code)
      | None \<Rightarrow> Inr (fst (feed d (reads_done d)), actual_scan_rate c))"
  by (auto simp add: read_stream_chunk_def on_device_def andThen_def eStreamRead_def ljm_call_def
        returns_def outcome_at_def split: list.splits option.splits prod.splits)

lemma read_chunks_errors:
  "r \<in> set (read_chunks n s) \<Longrightarrow> r = Inl e \<Longrightarrow> \<exists>code. e = LJMError code"
proof (induction n arbitrary: s)
  case 0
  then show ?case by simp
next
  case (Suc n)
  obtain c d where s: "s = (c, d)" by (cases s)
  obtain r1 s1 where step: "read_stream_chunk s = (r1, s1)" by (cases "read_stream_chunk s")
  show ?case
  proof (cases r1)
    case (Inl e1)
    with Suc.prems step have "e = e1" by simp
    moreover have "fst (read_stream_chunk (c, d)) = Inl e1" using step s Inl by simp
    ultimately show ?thesis
      unfolding read_stream_chunk_fst by (auto split: option.splits)
  next
    case (Inr x)
    with Suc.prems step have "r \<in> set (read_chunks n s1)" by auto
    from Suc.IH [OF this Suc.prems(2)] show ?thesis .
  qed
qed

lemma ljm_call_rate: "granted_rate (snd (ljm_call ev d)) = granted_rate d"
  by (simp add: ljm_call_def split: list.splits option.splits)

lemma eWriteName_rate: "granted_rate (snd (eWriteName name v d)) = granted_rate d"
  by (simp add: eWriteName_def andThen_def ljm_call_def split: list.splits option.splits)

lemma write_attempts_rate: "granted_rate (snd (write_attempts as reg v d)) = granted_rate d"
proof (induction as arbitrary: d)
  case Nil
  show ?case by simp
next
  case (Cons a as)
  obtain r1 d1 where w: "eWriteName reg v d = (r1, d1)" by (cases "eWriteName reg v d")
  have keep: "granted_rate d1 = granted_rate d"
    using eWriteName_rate [of reg v d] w by simp
  have later: "granted_rate (snd (write_attempts as reg v (snd (sleep (1 / 100) d1)))) = granted_rate d"
    using Cons.IH [of "snd (sleep (1 / 100) d1)"] keep by (simp add: sleep_def)
  show ?case
    using w keep later by (simp split: sum.splits py_error.splits)
qed

lemma load_samples_rate: "granted_rate (snd (load_samples reg w d)) = granted_rate d"
proof (induction w arbitrary: d)
  case Nil
  show ?case by simp
next
  case (Cons v vs)
  obtain r1 d1 where w: "write_attempts [0..<3] reg v d = (r1, d1)"
    by (cases "write_attempts [0..<3] reg v d")
  have keep: "granted_rate d1 = granted_rate d"
    using write_attempts_rate [of "[0..<3]" reg v d] w by simp
  show ?case
    using w keep Cons.IH [of d1] by (simp split: sum.splits)
qed

lemma andThen_rate:
  assumes "\<And>d. granted_rate (snd (m d)) = granted_rate d"
    and "\<And>x d. granted_rate (snd (f x d)) = granted_rate d"
  shows "granted_rate (snd (andThen m f d)) = granted_rate d"
proof (cases "m d")
  case (Pair r d1)
  have "granted_rate d1 = granted_rate d" using assms(1) [of d] Pair by simp
  then show ?thesis
    using Pair assms(2) by (cases r) (simp_all add: andThen_def)
qed

lemma configure_stream_out_rate:
  "granted_rate (snd (configure_stream_out index target_name waveform loop value_type d)) = granted_rate d"
  unfolding configure_stream_out_def Let_def
  by (intro andThen_rate) (simp_all add: eWriteName_rate load_samples_rate nameToAddress_def returns_def)

lemma configure_led_stream_out_rate:
  "granted_rate (snd (configure_led_stream_out d)) = granted_rate d"
  by (simp add: configure_led_stream_out_def configure_stream_out_rate split: sum.splits)

lemma on_device_eq:
  "on_device m (c, d) = (r, s') \<Longrightarrow> s' = (c, snd (m d)) \<and> r = fst (m d)"
  by (auto simp add: on_device_def split: prod.splits)

lemma configure_ttl_stream_out_keeps:
  "configure_ttl_stream_out (c, d) = (r, (c', d')) \<Longrightarrow> c' = c \<and> granted_rate d' = granted_rate d"
  by (auto simp add: configure_ttl_stream_out_def configure_stream_out_rate
        split: option.splits list.splits dest!: on_device_eq)

lemma start_stream_ttl_guard:
  "(\<lambda>(c, d). case ttl_waveform c of
              None \<Rightarrow> returns () (c, d)
            | Some [] \<Rightarrow> returns () (c, d)
            | Some w \<Rightarrow> configure_ttl_stream_out (c, d)) = configure_ttl_stream_out"
  by (auto simp add: fun_eq_iff configure_ttl_stream_out_def returns_def
        split: option.splits list.splits)

lemma start_stream_Inr:
  assumes "start_stream (c, d) = (Inr rate, (c', d'))"
  shows "rate = granted_rate d" and "actual_scan_rate c' = rate"
    and "stream_config c' = stream_config c"
proof -
  let ?names = "build_scan_list (stream_config c)
     ([stream_out_base STREAM_OUT_INDEX]
      @ (case ttl_waveform c of None \<Rightarrow> [] | Some [] \<Rightarrow> []
         | Some w \<Rightarrow> [stream_out_base TTL_STREAM_OUT_INDEX]))"
  let ?c1 = "c\<lparr>scan_list_addresses := map (address_of d) ?names,
               num_inputs := length (input_names (stream_config c))\<rparr>"
  from assms obtain u2 s2 u3 s3 s4 where
    led: "on_device configure_led_stream_out (?c1, d) = (Inr u2, s2)"
    and ttl: "configure_ttl_stream_out s2 = (Inr u3, s3)"
    and start: "on_device (eStreamStart (scans_per_read (stream_config c))
                   (map (address_of d) ?names) (scan_rate_hz (stream_config c))) s3 = (Inr rate, s4)"
    and fin: "assign (\<lambda>c. c\<lparr>actual_scan_rate := rate\<rparr>) s4 = (Inr (), (c', d'))"
    unfolding start_stream_def start_stream_ttl_guard
    by (auto simp add: Let_def namesToAddresses_def on_device_def assign_def returns_def
          dest!: andThen_Inr split: prod.splits)
  from on_device_eq [OF led] have s2: "s2 = (?c1, snd (configure_led_stream_out d))" by simp
  obtain c3 d3 where s3: "s3 = (c3, d3)" by (cases s3)
  from configure_ttl_stream_out_keeps [OF ttl [unfolded s2 s3]]
  have c3: "c3 = ?c1" and r3: "granted_rate d3 = granted_rate d"
    by (simp_all add: configure_led_stream_out_rate)
  from on_device_eq [OF start [unfolded s3]]
  have s4: "s4 = (c3, snd (eStreamStart (scans_per_read (stream_config c))
                   (map (address_of d) ?names) (scan_rate_hz (stream_config c)) d3))"
    and rate: "Inr rate = fst (eStreamStart (scans_per_read (stream_config c))
                   (map (address_of d) ?names) (scan_rate_hz (stream_config c)) d3)"
    by simp_all
  from rate have "rate = granted_rate d3"
    by (auto simp add: eStreamStart_def andThen_def ljm_call_def split: list.splits option.splits)
  with r3 show "rate = granted_rate d" by simp
  from fin s4 c3 have c': "c' = ?c1\<lparr>actual_scan_rate := rate\<rparr>"
    by (simp add: assign_def)
  then show "actual_scan_rate c' = rate" by simp
  from c' show "stream_config c' = stream_config c" by simp
qed

lemma configure_stream_out_quiet_outcomes:
  assumes "outcomes d = []"
  shows "outcomes (snd (configure_stream_out index target_name waveform loop value_type d)) = []"
proof -
  let ?b = "stream_out_base index"
  let ?reg = "if value_type = ''f32'' then ?b @ ''_BUFFER_F32'' else ?b @ ''_BUFFER_U16''"
  define d5 where "d5 =
    snd (eWriteName (?b @ ''_LOOP_SIZE'') (of_nat (length waveform))
      (snd (eWriteName (?b @ ''_ENABLE'') 1
        (snd (eWriteName (?b @ ''_BUFFER_SIZE'') (of_nat (stream_out_buffer_size (length waveform)))
          (snd (eWriteName (?b @ ''_TARGET'') (of_int (address_of d target_name))
            (snd (eWriteName (?b @ ''_ENABLE'') 0 d)))))))))"
  have q5: "outcomes d5 = []"
    using assms by (simp add: d5_def eWriteName_quiet)
  obtain d6 where d6: "load_samples ?reg waveform d5 = (Inr (), d6)" "outcomes d6 = []"
    using load_samples_quiet [OF q5, of ?reg waveform]
    by (cases "load_samples ?reg waveform d5") auto
  have "configure_stream_out index target_name waveform loop value_type d
        = (if loop then eWriteName (?b @ ''_SET_LOOP'') 1 else returns ()) d6"
    using assms d6(1)
    by (simp add: configure_stream_out_def Let_def nameToAddress_def andThen_def eWriteName_quiet d5_def)
  then show ?thesis using d6(2) by (simp add: eWriteName_quiet returns_def)
qed

lemma led_waveform_constants:
  "\<exists>w. led_waveform STREAM_SCAN_RATE_HZ LED_FREQUENCY_HZ LED_AMPLITUDE_V LED_OFFSET_V = Inr w"
  by (simp add: led_waveform_def STREAM_SCAN_RATE_HZ_def LED_FREQUENCY_HZ_def py_int_def Let_def)

lemma configure_led_stream_out_quiet:
  assumes "outcomes d = []"
  shows "fst (configure_led_stream_out d) = Inr ()"
    and "outcomes (snd (configure_led_stream_out d)) = []"
proof -
  from led_waveform_constants obtain w where
    w: "led_waveform STREAM_SCAN_RATE_HZ LED_FREQUENCY_HZ LED_AMPLITUDE_V LED_OFFSET_V = Inr w" ..
  show "fst (configure_led_stream_out d) = Inr ()"
    using assms by (simp add: configure_led_stream_out_def w configure_stream_out_quiet)
  show "outcomes (snd (configure_led_stream_out d)) = []"
    using assms by (simp add: configure_led_stream_out_def w configure_stream_out_quiet_outcomes)
qed

lemma on_device_snd: "snd (on_device m (c, d)) = (c, snd (m d))"
  by (simp add: on_device_def split: prod.splits)

lemma configure_ttl_stream_out_quiet_state:
  "outcomes d = [] \<Longrightarrow> \<exists>d'. snd (configure_ttl_stream_out (c, d)) = (c, d') \<and> outcomes d' = []"
  by (simp add: configure_ttl_stream_out_def on_device_snd configure_stream_out_quiet_outcomes
        split: option.splits list.splits)

lemma start_stream_quiet:
  assumes "outcomes d = []"
  shows "fst (start_stream (c, d)) = Inr (granted_rate d)"
proof -
  let ?names = "build_scan_list (stream_config c)
     ([stream_out_base STREAM_OUT_INDEX]
      @ (case ttl_waveform c of None \<Rightarrow> [] | Some [] \<Rightarrow> []
         | Some w \<Rightarrow> [stream_out_base TTL_STREAM_OUT_INDEX]))"
  let ?c1 = "c\<lparr>scan_list_addresses := map (address_of d) ?names,
               num_inputs := length (input_names (stream_config c))\<rparr>"
  let ?d2 = "snd (configure_led_stream_out d)"
  have led: "on_device configure_led_stream_out (?c1, d) = (Inr (), (?c1, ?d2))"
    using configure_led_stream_out_quiet(1) [OF assms]
    by (cases "configure_led_stream_out d") (simp add: on_device_def)
  have q2: "outcomes ?d2 = []" by (rule configure_led_stream_out_quiet(2) [OF assms])
  from configure_ttl_stream_out_quiet_state [OF q2, of ?c1] obtain d3 where
    s3: "snd (configure_ttl_stream_out (?c1, ?d2)) = (?c1, d3)" and q3: "outcomes d3 = []" by blast
  have ttl: "configure_ttl_stream_out (?c1, ?d2) = (Inr (), (?c1, d3))"
    using configure_ttl_stream_out_quiet [OF q2, of ?c1] s3
    by (cases "configure_ttl_stream_out (?c1, ?d2)") simp
  have r3: "granted_rate d3 = granted_rate d"
    using configure_ttl_stream_out_keeps [OF ttl] by (simp add: configure_led_stream_out_rate)
  show ?thesis
    using led ttl q3 r3
    unfolding start_stream_def start_stream_ttl_guard
    by (simp add: Let_def andThen_def on_device_def namesToAddresses_def assign_def
          returns_def eStreamStart_def ljm_call_def)
qed

lemma b64_scale_step:
  "0 < fuel \<Longrightarrow> b64_scale fuel m e =
     (if m < 2 ^ 52 then (if e \<le> - 1074 then (m, e) else b64_scale (fuel - 1) (2 * m) (e - 1))
      else if 2 ^ 53 \<le> m then b64_scale (fuel - 1) (m / 2) (e + 1)
      else (m, e))"
  by (cases fuel) simp_all

lemma fold_write_scan:
  "fold (write_scan n data) [0..<m] lg =
     lg\<lparr>rows := rows lg
              @ map (\<lambda>k. Row (sample_index lg + int k)
                            (float_mul (float_of_int (sample_index lg + int k)) (sample_period lg))
                            (map (\<lambda>ch. data ! (k * n + ch)) [0..<log_num_inputs lg]))
                  [0..<m],
        sample_index := sample_index lg + int m\<rparr>"
proof (induction m)
  case 0
  show ?case by simp
next
  case (Suc m)
  have "fold (write_scan n data) [0..<Suc m] lg
          = write_scan n data m (fold (write_scan n data) [0..<m] lg)"
    by simp
  also have "\<dots> = lg\<lparr>rows := rows lg
              @ map (\<lambda>k. Row (sample_index lg + int k)
                            (float_mul (float_of_int (sample_index lg + int k)) (sample_period lg))
                            (map (\<lambda>ch. data ! (k * n + ch)) [0..<log_num_inputs lg]))
                  [0..<Suc m],
        sample_index := sample_index lg + int (Suc m)\<rparr>"
    unfolding Suc.IH by (simp add: write_scan_def Let_def)
  finally show ?case .
qed

lemma scan_values:
  assumes "i + n \<le> length xs"
  shows "map (\<lambda>ch. xs ! (i + ch)) [0..<n] = take n (drop i xs)"
  using assms by (simp add: list_eq_iff_nth_eq)

lemma scan_in_range:
  assumes "k < length xs div n"
  shows "k * n + n \<le> length xs"
proof -
  from assms have "Suc k \<le> length xs div n" by simp
  then have "Suc k * n \<le> (length xs div n) * n" by (rule mult_le_mono1)
  also have "\<dots> \<le> length xs" by simp
  finally show ?thesis by simp
qed

lemma log_chunk_rows:
  assumes w: "has_writer lg" and ne: "data \<noteq> []" and n: "0 < log_num_inputs lg"
  shows "log_chunk lg data =
     Inr (lg\<lparr>rows := rows lg
              @ map (\<lambda>k. Row (sample_index lg + int k)
                            (float_mul (float_of_int (sample_index lg + int k)) (sample_period lg))
                            (take (log_num_inputs lg)
                               (drop (k * log_num_inputs lg)
                                  (take (SCANS_PER_READ * log_num_inputs lg) data))))
                  [0..<length (take (SCANS_PER_READ * log_num_inputs lg) data) div log_num_inputs lg],
            sample_index := sample_index lg
               + int (length (take (SCANS_PER_READ * log_num_inputs lg) data) div log_num_inputs lg)\<rparr>)"
proof -
  let ?n = "log_num_inputs lg"
  let ?kept = "take (SCANS_PER_READ * ?n) data"
  let ?scans = "length ?kept div ?n"
  have vals: "map (\<lambda>k. Row (sample_index lg + int k)
                            (float_mul (float_of_int (sample_index lg + int k)) (sample_period lg))
                            (map (\<lambda>ch. ?kept ! (k * ?n + ch)) [0..<?n])) [0..<?scans]
            = map (\<lambda>k. Row (sample_index lg + int k)
                            (float_mul (float_of_int (sample_index lg + int k)) (sample_period lg))
                            (take ?n (drop (k * ?n) ?kept))) [0..<?scans]"
  proof (rule map_cong [OF refl])
    fix k assume "k \<in> set [0..<?scans]"
    then have "k < ?scans" by simp
    then have "k * ?n + ?n \<le> length ?kept" by (rule scan_in_range)
    then have "map (\<lambda>ch. ?kept ! (k * ?n + ch)) [0..<?n] = take ?n (drop (k * ?n) ?kept)"
      by (rule scan_values)
    then show "Row (sample_index lg + int k) (float_mul (float_of_int (sample_index lg + int k)) (sample_period lg))
                 (map (\<lambda>ch. ?kept ! (k * ?n + ch)) [0..<?n])
             = Row (sample_index lg + int k) (float_mul (float_of_int (sample_index lg + int k)) (sample_period lg))
                 (take ?n (drop (k * ?n) ?kept))"
      by simp
  qed
  have "log_chunk lg data = Inr (fold (write_scan ?n ?kept) [0..<?scans] lg)"
    using w ne n by (simp add: log_chunk_def Let_def)
  then show ?thesis
    unfolding fold_write_scan vals .
qed

section \<open>Verified properties\<close>

text \<open>
  C5. For 300 pulses at 30 Hz with a width of 1 ms (scan rate 4000 Hz) the pulse-train
  generator computes 133 samples per period and 4 high samples; the stored waveform has
  length 133, its first 4 port-words have the level bit of the line set and the remaining
  129 have it clear, and the exposed duration is 10 seconds.
\<close>

theorem pulse_train_example:
  "ttl_samples_per_period 30 = 133
   \<and> ttl_high_samples 30 (1 / 1000) = 4
   \<and> ttl_waveform (prepare_ttl_waveform c 300 30 (1 / 1000))
       = Some (replicate 4 high_word @ replicate 129 low_word)
   \<and> length (replicate 4 high_word @ replicate 129 low_word) = 133
   \<and> high_word AND 1 = 1 \<and> low_word AND 1 = 0
   \<and> ttl_duration_seconds (prepare_ttl_waveform c 300 30 (1 / 1000)) = 10"
proof -
  have w: "ttl_waveform (prepare_ttl_waveform c 300 30 (1 / 1000))
       = Some (replicate 4 high_word @ replicate 129 low_word)"
    by (simp add: prepare_ttl_waveform_Some spp30 high30)
  have d: "ttl_duration_seconds (prepare_ttl_waveform c 300 30 (1 / 1000)) = 10"
    by (simp add: ttl_duration_seconds_def prepare_ttl_waveform_def Let_def)
  have b: "high_word AND 1 = 1 \<and> low_word AND 1 = 0"
    by (simp add: high_word_def low_word_def FIO0_MASK_ALLOW_def)
  show ?thesis using w d b spp30 high30 by simp
qed

text \<open>
  C3 (as amended). For every waveform the stream-out buffer loader loads, the buffer size
  written to the device is a power of two between 512 and 8192; it is at least the
  waveform's length whenever that length is at most 8192, and it is exactly 8192 for every
  longer waveform.
\<close>

theorem buffer_size_power_of_two:
  assumes "configure_stream_out index target_name waveform loop value_type d = (Inr u, d')"
  shows "registers d' (stream_out_base index @ ''_BUFFER_SIZE'')
           = Some (of_nat (stream_out_buffer_size (length waveform)))
         \<and> (\<exists>k. stream_out_buffer_size (length waveform) = 2 ^ k)
         \<and> 512 \<le> stream_out_buffer_size (length waveform)
         \<and> stream_out_buffer_size (length waveform) \<le> 8192
         \<and> (length waveform \<le> 8192 \<longrightarrow> length waveform \<le> stream_out_buffer_size (length waveform))
         \<and> (8192 < length waveform \<longrightarrow> stream_out_buffer_size (length waveform) = 8192)"
  using configure_stream_out_registers(2) [OF assms]
    stream_out_buffer_size_pow2 [of "length waveform"]
    stream_out_buffer_size_bounds [of "length waveform"]
    stream_out_buffer_size_holds [of "length waveform"]
    stream_out_buffer_size_clamped [of "length waveform"]
  by blast

theorem buffer_size_power_of_two_witness:
  "registers (snd (configure_stream_out 0 ''DAC0'' (replicate 600 (5 / 2)) True ''f32'' bench_device))
     ''STREAM_OUT0_BUFFER_SIZE'' = Some 1024
   \<and> (\<exists>k. (1024::nat) = 2 ^ k) \<and> (600::nat) \<le> 1024
   \<and> registers (snd (configure_stream_out 0 ''DAC0'' (replicate 9000 (5 / 2)) True ''f32'' bench_device))
     ''STREAM_OUT0_BUFFER_SIZE'' = Some 8192"
proof -
  have q: "outcomes bench_device = []" by (simp add: bench_device_def)
  have run: "configure_stream_out 0 ''DAC0'' (replicate 600 (5 / 2)) True ''f32'' bench_device
        = (Inr (), snd (configure_stream_out 0 ''DAC0'' (replicate 600 (5 / 2)) True ''f32'' bench_device))"
    using configure_stream_out_quiet [OF q] by (rule run_collapse)
  have long: "configure_stream_out 0 ''DAC0'' (replicate 9000 (5 / 2)) True ''f32'' bench_device
        = (Inr (), snd (configure_stream_out 0 ''DAC0'' (replicate 9000 (5 / 2)) True ''f32'' bench_device))"
    using configure_stream_out_quiet [OF q] by (rule run_collapse)
  have s: "stream_out_buffer_size 600 = 1024"
    by (simp add: stream_out_buffer_size_def ceil_log2.simps)
  have small: "registers (snd (configure_stream_out 0 ''DAC0'' (replicate 600 (5 / 2)) True ''f32'' bench_device))
     ''STREAM_OUT0_BUFFER_SIZE'' = Some 1024
   \<and> (\<exists>k. (1024::nat) = 2 ^ k) \<and> (600::nat) \<le> 1024"
    using buffer_size_power_of_two [OF run] by (simp add: s stream_out_base_values)
  have big: "registers (snd (configure_stream_out 0 ''DAC0'' (replicate 9000 (5 / 2)) True ''f32'' bench_device))
     ''STREAM_OUT0_BUFFER_SIZE'' = Some 8192"
    using buffer_size_power_of_two [OF long] by (simp add: stream_out_base_values)
  show ?thesis using small big by simp
qed

text \<open>
  C3 as stated fails: a waveform of 8193 samples is loaded without any error, with the
  buffer size register set to 8192, below the waveform's length.
\<close>

theorem oversized_waveform_counterexample:
  "fst (configure_stream_out 0 ''DAC0'' (replicate 8193 0) True ''f32'' bench_device) = Inr ()
   \<and> registers (snd (configure_stream_out 0 ''DAC0'' (replicate 8193 0) True ''f32'' bench_device))
       ''STREAM_OUT0_BUFFER_SIZE'' = Some 8192
   \<and> length (replicate 8193 (0::real)) = 8193"
proof -
  have q: "outcomes bench_device = []" by (simp add: bench_device_def)
  have ok: "fst (configure_stream_out 0 ''DAC0'' (replicate 8193 0) True ''f32'' bench_device) = Inr ()"
    using configure_stream_out_quiet [OF q] .
  have s: "stream_out_buffer_size 8193 = 8192"
    by (simp add: stream_out_buffer_size_def ceil_log2.simps)
  have "registers (snd (configure_stream_out 0 ''DAC0'' (replicate 8193 0) True ''f32'' bench_device))
       (stream_out_base 0 @ ''_BUFFER_SIZE'') = Some (of_nat (stream_out_buffer_size (length (replicate 8193 (0::real)))))"
    using configure_stream_out_registers(2) [OF run_collapse [OF ok]] .
  then show ?thesis using ok by (simp add: s stream_out_base_values)
qed

text \<open>
  C8. For every waveform of length \<open>N\<close> that the stream-out buffer loader loads, the
  loop-size register holds exactly \<open>N\<close> after the load, whatever buffer size was chosen.
\<close>

theorem loop_size_is_waveform_length:
  assumes "configure_stream_out index target_name waveform loop value_type d = (Inr u, d')"
  shows "registers d' (stream_out_base index @ ''_LOOP_SIZE'') = Some (of_nat (length waveform))"
  using configure_stream_out_registers(1) [OF assms] .

theorem loop_size_is_waveform_length_witness:
  "registers (snd (configure_stream_out 0 ''DAC0'' (replicate 600 (5 / 2)) True ''f32'' bench_device))
     ''STREAM_OUT0_LOOP_SIZE'' = Some 600
   \<and> registers (snd (configure_stream_out 0 ''DAC0'' (replicate 600 (5 / 2)) True ''f32'' bench_device))
     ''STREAM_OUT0_BUFFER_SIZE'' = Some 1024"
proof -
  have q: "outcomes bench_device = []" by (simp add: bench_device_def)
  have run: "configure_stream_out 0 ''DAC0'' (replicate 600 (5 / 2)) True ''f32'' bench_device
        = (Inr (), snd (configure_stream_out 0 ''DAC0'' (replicate 600 (5 / 2)) True ''f32'' bench_device))"
    using configure_stream_out_quiet [OF q] by (rule run_collapse)
  have s: "stream_out_buffer_size 600 = 1024"
    by (simp add: stream_out_buffer_size_def ceil_log2.simps)
  show ?thesis
    using loop_size_is_waveform_length [OF run] configure_stream_out_registers(2) [OF run]
    by (simp add: s stream_out_base_values)
qed

text \<open>
  C6. Every port-word for the trigger line carries the inhibit mask \<open>0xFE\<close> in its upper
  byte and the level of FIO0 in bit 0 of its lower byte: each sample of the TTL pulse-train
  waveform, high for the first \<open>high_samples\<close> samples and low after them, and each value
  the single-line state setter writes to \<open>FIO_STATE\<close>. The pulse-train words are the very
  values the state setter writes.
\<close>

theorem port_word_encoding:
  assumes "ttl_waveform (prepare_ttl_waveform c num_pulses rate_hz pulse_width_s) = Some w"
    and "i < length w"
  shows "drop_bit 8 (w ! i) = FIO0_MASK_ALLOW
         \<and> (w ! i) AND 0xFF = (if i < nat (ttl_high_samples rate_hz pulse_width_s) then 1 else 0)
         \<and> w ! i = fio0_state_value (i < nat (ttl_high_samples rate_hz pulse_width_s))
         \<and> drop_bit 8 (fio0_state_value high) = FIO0_MASK_ALLOW
         \<and> (fio0_state_value high) AND 0xFF = (if high then 1 else 0)
         \<and> journal (snd (set_fio0_state high d))
             = journal d @ [Write ''FIO_STATE'' (of_int (fio0_state_value high))]"
proof -
  let ?h = "nat (ttl_high_samples rate_hz pulse_width_s)"
  let ?l = "nat (ttl_samples_per_period rate_hz - ttl_high_samples rate_hz pulse_width_s)"
  have pos: "0 < num_pulses"
    using assms(1) by (cases "num_pulses \<le> 0") (simp_all add: prepare_ttl_waveform_def)
  have w: "w = replicate ?h high_word @ replicate ?l low_word"
    using assms(1) prepare_ttl_waveform_Some [OF pos, of c rate_hz pulse_width_s] by simp
  have nth: "w ! i = fio0_state_value (i < ?h)"
  proof (cases "i < ?h")
    case True
    then show ?thesis by (simp add: w nth_append words_eq)
  next
    case False
    with assms(2) have "i - ?h < ?l" by (simp add: w)
    with False show ?thesis by (simp add: w nth_append words_eq)
  qed
  have bits: "drop_bit 8 (fio0_state_value b) = FIO0_MASK_ALLOW
      \<and> (fio0_state_value b) AND 0xFF = (if b then 1 else 0)" for b
    using fio0_state_value_bits [of b] by (simp add: FIO0_MASK_ALLOW_def)
  have j: "journal (snd (set_fio0_state high d))
             = journal d @ [Write ''FIO_STATE'' (of_int (fio0_state_value high))]"
    by (simp add: set_fio0_state_def write_optional_register_journal)
  show ?thesis using nth bits [of "i < ?h"] bits [of high] j by simp
qed

theorem port_word_encoding_witness:
  "prepare_ttl_waveform bench_controller 300 30 (1 / 1000)
     \<noteq> bench_controller
   \<and> (replicate 4 high_word @ replicate 129 low_word) ! 2 = fio0_state_value True
   \<and> (replicate 4 high_word @ replicate 129 low_word) ! 2 AND 0xFF = 1
   \<and> drop_bit 8 ((replicate 4 high_word @ replicate 129 low_word) ! 2) = 0xFE"
proof -
  have w: "ttl_waveform (prepare_ttl_waveform bench_controller 300 30 (1 / 1000))
       = Some (replicate 4 high_word @ replicate 129 low_word)"
    by (simp add: prepare_ttl_waveform_Some spp30 high30)
  have i: "(2::nat) < length (replicate 4 high_word @ replicate 129 low_word)" by simp
  have ne: "prepare_ttl_waveform bench_controller 300 30 (1 / 1000) \<noteq> bench_controller"
    using w by (auto simp add: bench_controller_def)
  show ?thesis
    using port_word_encoding [OF w i, of True bench_device] ne
    by (simp add: high30 FIO0_MASK_ALLOW_def)
qed



text \<open>
  C9. One sample write is attempted at most three times. A first, second or third attempt
  that succeeds ends the retries without an error, with a sleep of 10 ms after each failed
  attempt before it; the error is raised only when the third attempt fails as well, and it
  is that attempt's error. The loading loop goes on to the next sample after a success and
  stops with the error otherwise, so a waveform costs at most three write attempts per
  sample.
\<close>

theorem sample_write_retry:
  "(outcome_at d 0 = None \<longrightarrow>
      fst (write_attempts [0..<3] reg v d) = Inr ()
      \<and> journal (snd (write_attempts [0..<3] reg v d)) = journal d @ [Write reg v])
   \<and> (\<forall>c0. outcome_at d 0 = Some c0 \<and> outcome_at d 1 = None \<longrightarrow>
      fst (write_attempts [0..<3] reg v d) = Inr ()
      \<and> journal (snd (write_attempts [0..<3] reg v d))
          = journal d @ [Write reg v, Sleep (1 / 100), Write reg v])
   \<and> (\<forall>c0 c1. outcome_at d 0 = Some c0 \<and> outcome_at d 1 = Some c1 \<and> outcome_at d 2 = None \<longrightarrow>
      fst (write_attempts [0..<3] reg v d) = Inr ()
      \<and> journal (snd (write_attempts [0..<3] reg v d))
          = journal d @ [Write reg v, Sleep (1 / 100), Write reg v, Sleep (1 / 100), Write reg v])
   \<and> (\<forall>c0 c1 c2. outcome_at d 0 = Some c0 \<and> outcome_at d 1 = Some c1 \<and> outcome_at d 2 = Some c2 \<longrightarrow>
      fst (write_attempts [0..<3] reg v d) = Inl (LJMError c2)
      \<and> journal (snd (write_attempts [0..<3] reg v d))
          = journal d @ [Write reg v, Sleep (1 / 100), Write reg v, Sleep (1 / 100), Write reg v])
   \<and> load_samples reg (v # vs) d =
       (if fst (write_attempts [0..<3] reg v d) = Inr ()
        then load_samples reg vs (snd (write_attempts [0..<3] reg v d))
        else write_attempts [0..<3] reg v d)
   \<and> writes_to reg (journal (snd (load_samples reg ws d)))
       \<le> writes_to reg (journal d) + 3 * length ws"
  using first_attempt_ok [of d reg v] second_attempt_ok [of d _ reg v]
    third_attempt_ok [of d _ _ reg v] third_attempt_fails [of d _ _ _ reg v]
    load_samples_step [of reg v vs d] load_samples_count [of reg ws d]
  by blast

theorem sample_write_retry_witness:
  "fst (write_attempts [0..<3] ''STREAM_OUT0_BUFFER_F32'' (5 / 2) bench_device) = Inr ()
   \<and> journal (snd (write_attempts [0..<3] ''STREAM_OUT0_BUFFER_F32'' (5 / 2) bench_device))
       = [Write ''STREAM_OUT0_BUFFER_F32'' (5 / 2)]
   \<and> fst (write_attempts [0..<3] ''STREAM_OUT0_BUFFER_F32'' (5 / 2)
            (bench_device\<lparr>outcomes := [Some 1239]\<rparr>)) = Inr ()
   \<and> fst (write_attempts [0..<3] ''STREAM_OUT0_BUFFER_F32'' (5 / 2)
            (bench_device\<lparr>outcomes := [Some 1239, Some 1239]\<rparr>)) = Inr ()
   \<and> fst (write_attempts [0..<3] ''STREAM_OUT0_BUFFER_F32'' (5 / 2)
            (bench_device\<lparr>outcomes := [Some 1239, Some 1239, Some 1227]\<rparr>)) = Inl (LJMError 1227)
   \<and> journal (snd (write_attempts [0..<3] ''STREAM_OUT0_BUFFER_F32'' (5 / 2)
            (bench_device\<lparr>outcomes := [Some 1239, Some 1239, Some 1227]\<rparr>)))
       = [Write ''STREAM_OUT0_BUFFER_F32'' (5 / 2), Sleep (1 / 100),
          Write ''STREAM_OUT0_BUFFER_F32'' (5 / 2), Sleep (1 / 100),
          Write ''STREAM_OUT0_BUFFER_F32'' (5 / 2)]"
proof -
  have a: "outcome_at bench_device 0 = None"
    by (simp add: outcome_at_def bench_device_def)
  have b: "outcome_at (bench_device\<lparr>outcomes := [Some 1239]\<rparr>) 0 = Some 1239
           \<and> outcome_at (bench_device\<lparr>outcomes := [Some 1239]\<rparr>) 1 = None"
    by (simp add: outcome_at_def)
  have c: "outcome_at (bench_device\<lparr>outcomes := [Some 1239, Some 1239]\<rparr>) 0 = Some 1239
           \<and> outcome_at (bench_device\<lparr>outcomes := [Some 1239, Some 1239]\<rparr>) 1 = Some 1239
           \<and> outcome_at (bench_device\<lparr>outcomes := [Some 1239, Some 1239]\<rparr>) 2 = None"
    by (simp add: outcome_at_def)
  have d: "outcome_at (bench_device\<lparr>outcomes := [Some 1239, Some 1239, Some 1227]\<rparr>) 0 = Some 1239
           \<and> outcome_at (bench_device\<lparr>outcomes := [Some 1239, Some 1239, Some 1227]\<rparr>) 1 = Some 1239
           \<and> outcome_at (bench_device\<lparr>outcomes := [Some 1239, Some 1239, Some 1227]\<rparr>) 2 = Some 1227"
    by (simp add: outcome_at_def)
  have j: "journal bench_device = []" by (simp add: bench_device_def)
  show ?thesis
    using a b c d
      sample_write_retry [of bench_device "''STREAM_OUT0_BUFFER_F32''" "5 / 2" "[]" "[]"]
      sample_write_retry [of "bench_device\<lparr>outcomes := [Some 1239]\<rparr>"
                             "''STREAM_OUT0_BUFFER_F32''" "5 / 2" "[]" "[]"]
      sample_write_retry [of "bench_device\<lparr>outcomes := [Some 1239, Some 1239]\<rparr>"
                             "''STREAM_OUT0_BUFFER_F32''" "5 / 2" "[]" "[]"]
      sample_write_retry [of "bench_device\<lparr>outcomes := [Some 1239, Some 1239, Some 1227]\<rparr>"
                             "''STREAM_OUT0_BUFFER_F32''" "5 / 2" "[]" "[]"]
    by (simp add: j)
qed

text \<open>
  C4 (as amended). With \<open>samples_per_period = int(scan_rate / frequency)\<close>, the quotient
  truncated toward zero, and a frequency other than zero, the sine set-up fails with
  \<open>ValueError\<close> exactly when \<open>samples_per_period < 2\<close>; otherwise it produces a waveform
  of length \<open>samples_per_period\<close> whose \<open>i\<close>-th sample is
  \<open>offset + amplitude * sin(2 * pi * i / samples_per_period)\<close>.
\<close>

theorem led_waveform_length_nth:
  assumes "frequency \<noteq> 0"
  shows "(led_waveform scan_rate frequency amplitude offset = Inl ValueError
            \<longleftrightarrow> py_int (scan_rate / frequency) < 2)
         \<and> (2 \<le> py_int (scan_rate / frequency) \<longrightarrow>
              (\<exists>w. led_waveform scan_rate frequency amplitude offset = Inr w
                 \<and> int (length w) = py_int (scan_rate / frequency)
                 \<and> (\<forall>i < length w.
                      w ! i = offset + amplitude
                                * sin ((2 * pi * real i) / real_of_int (py_int (scan_rate / frequency))))))"
  using assms by (auto simp add: led_waveform_def Let_def)

theorem led_waveform_length_nth_witness:
  "(250::real) \<noteq> 0 \<and> py_int (4000 / 250) = 16
   \<and> led_waveform STREAM_SCAN_RATE_HZ LED_FREQUENCY_HZ LED_AMPLITUDE_V LED_OFFSET_V \<noteq> Inl ValueError
   \<and> (\<exists>w. led_waveform STREAM_SCAN_RATE_HZ LED_FREQUENCY_HZ LED_AMPLITUDE_V LED_OFFSET_V = Inr w
         \<and> int (length w) = 16)"
proof -
  have f: "(250::real) \<noteq> 0" by simp
  have n: "py_int (4000 / 250) = 16" by (simp add: py_int_def)
  show ?thesis
    using led_waveform_length_nth [OF f, of 4000 2 "5 / 2"] n
    by (auto simp add: STREAM_SCAN_RATE_HZ_def LED_FREQUENCY_HZ_def LED_AMPLITUDE_V_def LED_OFFSET_V_def)
qed

text \<open>
  C4 as stated fails: at a scan rate of 4000 Hz and a frequency of 2500 Hz the rounded
  quotient is 2, not below 2, and the set-up fails all the same, since the truncated
  quotient is 1.
\<close>

theorem led_waveform_round_counterexample:
  "py_round (4000 / 2500) = 2 \<and> led_waveform 4000 2500 2 (5 / 2) = Inl ValueError"
  by (simp add: py_round_def led_waveform_def py_int_def Let_def)

text \<open>
  C2 (as amended). A read-chunk call raises only what the library read raises; when the
  read succeeds it returns the data with the stored actual scan rate, whatever backlog
  the device reports. In every sequence of read-chunk calls each error is an error of
  the library.
\<close>

theorem read_stream_chunk_ignores_backlog:
  "fst (read_stream_chunk (c, d)) =
     (case outcome_at d 0 of
        Some code \<Rightarrow> Inl (LJMError code)
      | None \<Rightarrow> Inr (fst (feed d (reads_done d)), actual_scan_rate c))
   \<and> (\<forall>r \<in> set (read_chunks n (c, d)). \<forall>e. r = Inl e \<longrightarrow> (\<exists>code. e = LJMError code))"
  using read_stream_chunk_fst [of c d] read_chunks_errors [of _ n "(c, d)"] by blast

theorem read_stream_chunk_ignores_backlog_witness:
  "fst (read_stream_chunk (bench_controller, bench_device\<lparr>outcomes := [Some 1301]\<rparr>))
     = Inl (LJMError 1301)
   \<and> fst (read_stream_chunk (bench_controller, bench_device)) = Inr ([1 / 2, 5, 5 / 2], 4000)
   \<and> Inr ([1 / 2, 5, 5 / 2], 4000) \<in> set (read_chunks 3 (bench_controller, bench_device))"
proof -
  have a: "outcome_at (bench_device\<lparr>outcomes := [Some 1301]\<rparr>) 0 = Some 1301"
    by (simp add: outcome_at_def)
  have b: "outcome_at bench_device 0 = None"
    by (simp add: outcome_at_def bench_device_def)
  have f: "fst (feed bench_device (reads_done bench_device)) = [1 / 2, 5, 5 / 2]"
    by (simp add: bench_device_def)
  have r: "actual_scan_rate bench_controller = 4000"
    by (simp add: bench_controller_def STREAM_SCAN_RATE_HZ_def)
  have one: "fst (read_stream_chunk (bench_controller, bench_device)) = Inr ([1 / 2, 5, 5 / 2], 4000)"
    using read_stream_chunk_ignores_backlog [of bench_controller bench_device 3] b f r by simp
  have mem: "Inr ([1 / 2, 5, 5 / 2], 4000) \<in> set (read_chunks 3 (bench_controller, bench_device))"
    using one by (cases "read_stream_chunk (bench_controller, bench_device)")
                 (simp add: numeral_3_eq_3)
  show ?thesis
    using read_stream_chunk_ignores_backlog [of bench_controller "bench_device\<lparr>outcomes := [Some 1301]\<rparr>" 3]
      a one mem by simp
qed

text \<open>
  C2 as stated fails: three successive reads reporting backlogs of 1000, 2000 and 3000
  scans all return their data, so no threshold between them makes any call raise.
\<close>

theorem backlog_counterexample:
  "fst (snd (feed bench_device 0)) = 1000
   \<and> fst (snd (feed bench_device 1)) = 2000
   \<and> fst (snd (feed bench_device 2)) = 3000
   \<and> read_chunks 3 (bench_controller, bench_device)
       = [Inr ([1 / 2, 5, 5 / 2], 4000), Inr ([1 / 2, 5, 5 / 2], 4000), Inr ([1 / 2, 5, 5 / 2], 4000)]"
  by (simp add: numeral_3_eq_3 read_stream_chunk_def bench_device_def bench_controller_def ljm_call_def
        andThen_def on_device_def eStreamRead_def returns_def STREAM_SCAN_RATE_HZ_def)

text \<open>
  C7 (as amended). After a stream start that returned the rate \<open>rate\<close>, that rate is the one
  the device reported, and a logger set up from the started controller handles a chunk as
  follows: the data are truncated to \<open>SCANS_PER_READ\<close> times the input count, and for
  each whole scan \<open>k\<close> of the truncated data one row is written, holding the running
  scan index, the float product of that index with the sample period \<open>1.0 / rate\<close>, and
  the scan's values in input order; the scan index goes on from where the previous chunk
  left it and grows by one per row.
\<close>

theorem logged_rows:
  assumes start: "start_stream (c, d) = (Inr rate, (c', d'))"
    and rate: "rate \<noteq> 0"
    and writer: "has_writer lg"
    and period: "sample_period lg = sample_period (new_logger c' True)"
    and inputs: "log_num_inputs lg = log_num_inputs (new_logger c' True)"
    and some_input: "input_names (stream_config c) \<noteq> []"
    and data: "data \<noteq> []"
  shows "rate = granted_rate d
         \<and> (let n = length (input_names (stream_config c));
                 kept = take (SCANS_PER_READ * n) data;
                 scans = length kept div n
             in \<exists>lg'. log_chunk lg data = Inr lg'
                  \<and> rows lg' = rows lg
                       @ map (\<lambda>k. Row (sample_index lg + int k)
                                     (float_mul (float_of_int (sample_index lg + int k))
                                                (float_div 1 rate))
                                     (take n (drop (k * n) kept)))
                           [0..<scans]
                  \<and> sample_index lg' = sample_index lg + int scans
                  \<and> has_writer lg'
                  \<and> sample_period lg' = sample_period lg
                  \<and> log_num_inputs lg' = log_num_inputs lg)"
proof -
  note facts = start_stream_Inr [OF start]
  have n: "log_num_inputs lg = length (input_names (stream_config c))"
    using inputs facts(3) by (simp add: new_logger_def)
  have p: "sample_period lg = float_div 1 rate"
    using period facts(2) rate by (simp add: new_logger_def)
  have pos: "0 < log_num_inputs lg" using n some_input by simp
  show ?thesis
    using facts(1) log_chunk_rows [OF writer data pos] writer
    by (simp add: Let_def n [symmetric] p)
qed

theorem logged_rows_witness:
  "fst (start_stream (bench_controller, bench_device)) = Inr 4000
   \<and> (\<exists>lg'. log_chunk (new_logger (fst (snd (start_stream (bench_controller, bench_device)))) True)
               [1, 2, 3, 4, 5, 6, 7] = Inr lg'
         \<and> rows lg' = [Row 0 (float_mul (float_of_int 0) (float_div 1 4000)) [1, 2, 3],
                       Row 1 (float_mul (float_of_int 1) (float_div 1 4000)) [4, 5, 6]]
         \<and> sample_index lg' = 2)"
proof -
  let ?s = "snd (start_stream (bench_controller, bench_device))"
  let ?lg = "new_logger (fst ?s) True"
  have q: "outcomes bench_device = []" by (simp add: bench_device_def)
  have ok: "fst (start_stream (bench_controller, bench_device)) = Inr 4000"
    using start_stream_quiet [OF q, of bench_controller] by (simp add: bench_device_def)
  have start: "start_stream (bench_controller, bench_device) = (Inr 4000, (fst ?s, snd ?s))"
    using ok by (cases "start_stream (bench_controller, bench_device)") simp
  have rate: "(4000::real) \<noteq> 0" by simp
  have writer: "has_writer ?lg" by (simp add: new_logger_def)
  have names: "input_names (stream_config bench_controller) \<noteq> []"
    by (simp add: bench_controller_def)
  have data: "[1, 2, 3, 4, 5, 6, 7::real] \<noteq> []" by simp
  have n: "length (input_names (stream_config bench_controller)) = 3"
    by (simp add: bench_controller_def)
  have i0: "sample_index ?lg = 0" and r0: "rows ?lg = []" by (simp_all add: new_logger_def)
  have up: "[0..<2] = [0, 1]" by (simp add: upt_rec)
  show ?thesis
    using ok logged_rows [OF start rate writer refl refl names data]
    by (auto simp add: Let_def n i0 r0 SCANS_PER_READ_def up)
qed

text \<open>
  C7 as stated fails: at the reported rate of 4000 scans per second the row of scan
  index 9 carries the timestamp \<open>5188146770730812 / 2 ^ 61\<close>, the float product of 9
  with the sample period, which is neither the quotient \<open>9 / 4000\<close> nor the float
  nearest to it, \<open>5188146770730811 / 2 ^ 61\<close>.
\<close>

theorem timestamp_counterexample:
  "fst (start_stream (bench_controller, bench_device)) = Inr 4000
   \<and> \<not> isl (log_chunk (new_logger (fst (snd (start_stream (bench_controller, bench_device)))) True)
               (replicate 30 1))
   \<and> rows (projr (log_chunk (new_logger (fst (snd (start_stream (bench_controller, bench_device)))) True)
               (replicate 30 1))) ! 9
       = Row 9 (5188146770730812 / 2 ^ 61) [1, 1, 1]
   \<and> float_div (float_of_int 9) 4000 = 5188146770730811 / 2 ^ 61
   \<and> (5188146770730812 / 2 ^ 61 :: real) \<noteq> 9 / 4000"
proof -
  let ?s = "snd (start_stream (bench_controller, bench_device))"
  let ?lg = "new_logger (fst ?s) True"
  have q: "outcomes bench_device = []" by (simp add: bench_device_def)
  have ok: "fst (start_stream (bench_controller, bench_device)) = Inr 4000"
    using start_stream_quiet [OF q, of bench_controller] by (simp add: bench_device_def)
  have start: "start_stream (bench_controller, bench_device) = (Inr 4000, (fst ?s, snd ?s))"
    using ok by (cases "start_stream (bench_controller, bench_device)") simp
  note facts = start_stream_Inr [OF start]
  have writer: "has_writer ?lg" by (simp add: new_logger_def)
  have n: "log_num_inputs ?lg = 3"
    using facts(3) by (simp add: new_logger_def bench_controller_def)
  have p: "sample_period ?lg = float_div 1 4000"
    using facts(2) by (simp add: new_logger_def)
  have i0: "sample_index ?lg = 0" and r0: "rows ?lg = []" by (simp_all add: new_logger_def)
  have data: "replicate 30 (1::real) \<noteq> []" by simp
  have pos: "0 < log_num_inputs ?lg" using n by simp
  have period: "float_div 1 4000 = 4611686018427388 / 2 ^ 64"
    by (simp add: float_div_def b64_def b64_scale_step py_round_def Let_def)
  have nine: "float_of_int 9 = 9"
    by (simp add: float_of_int_def b64_def b64_scale_step py_round_def Let_def)
  have product: "float_mul 9 (4611686018427388 / 2 ^ 64) = 5188146770730812 / 2 ^ 61"
    by (simp add: float_mul_def b64_def b64_scale_step py_round_def Let_def)
  have quotient: "float_div 9 4000 = 5188146770730811 / 2 ^ 61"
    by (simp add: float_div_def b64_def b64_scale_step py_round_def Let_def)
  have vals: "take 3 (drop 27 (replicate 30 (1::real))) = [1, 1, 1]"
    by (simp add: numeral_3_eq_3)
  have run: "log_chunk ?lg (replicate 30 1) =
     Inr (?lg\<lparr>rows := rows ?lg
              @ map (\<lambda>k. Row (sample_index ?lg + int k)
                            (float_mul (float_of_int (sample_index ?lg + int k)) (sample_period ?lg))
                            (take (log_num_inputs ?lg)
                               (drop (k * log_num_inputs ?lg)
                                  (take (SCANS_PER_READ * log_num_inputs ?lg) (replicate 30 1)))))
                  [0..<length (take (SCANS_PER_READ * log_num_inputs ?lg) (replicate 30 (1::real)))
                        div log_num_inputs ?lg],
            sample_index := sample_index ?lg
               + int (length (take (SCANS_PER_READ * log_num_inputs ?lg) (replicate 30 (1::real)))
                        div log_num_inputs ?lg)\<rparr>)"
    by (rule log_chunk_rows [OF writer data pos])
  have scans: "length (take (SCANS_PER_READ * log_num_inputs ?lg) (replicate 30 (1::real)))
                 div log_num_inputs ?lg = 10"
    by (simp add: n SCANS_PER_READ_def)
  have kept: "take (SCANS_PER_READ * log_num_inputs ?lg) (replicate 30 (1::real)) = replicate 30 1"
    by (simp add: n SCANS_PER_READ_def)
  have row: "rows (projr (log_chunk ?lg (replicate 30 1))) ! 9
       = Row 9 (float_mul (float_of_int 9) (float_div 1 4000)) (take 3 (drop 27 (replicate 30 1)))"
    unfolding run scans kept by (simp add: r0 i0 n p del: take_replicate drop_replicate)
  have isr: "\<not> isl (log_chunk ?lg (replicate 30 1))"
    unfolding run by simp
  have ne: "(5188146770730812 / 2 ^ 61 :: real) \<noteq> 9 / 4000" by simp
  show ?thesis
    using ok isr row ne quotient
    by (simp only: nine period product vals simp_thms)
qed

text \<open>
  C1 fails on the code. Whenever no stream is running, \<^verbatim>\<open>stop_stream\<close> raises: its call
  of \<^verbatim>\<open>eStreamStop\<close> is not guarded, unlike the one in \<^verbatim>\<open>_configure_channels\<close>. The
  two writes that disable \<open>STREAM_OUT0\<close> and put the DAC at its idle level are skipped,
  so both registers keep the values they had. In particular the second of two consecutive
  calls raises.
\<close>

theorem stop_stream_raises_when_idle:
  assumes "\<not> stream_running d"
  shows "(\<exists>code. fst (stop_stream (c, d)) = Inl (LJMError code))
         \<and> (outcomes d = [] \<longrightarrow> fst (stop_stream (c, d)) = Inl (LJMError STREAM_NOT_RUNNING))
         \<and> registers (snd (snd (stop_stream (c, d)))) ''STREAM_OUT0_ENABLE''
             = registers d ''STREAM_OUT0_ENABLE''
         \<and> registers (snd (snd (stop_stream (c, d)))) ''DAC0'' = registers d ''DAC0''
         \<and> \<not> stream_running (snd (snd (stop_stream (c, d))))"
  using assms
  by (auto simp add: stop_stream_def disable_ttl_stream_def ljm_call_def
        andThen_def on_device_def assign_def eWriteName_def except_LJMError_pass_def eStreamStop_def
        write_optional_register_def set_fio0_state_def stream_out_base_values
        TTL_STREAM_OUT_INDEX_def STREAM_OUT_INDEX_def
        split: list.splits option.splits)

theorem stop_stream_raises_when_idle_witness:
  "fst (stop_stream (bench_controller, bench_device\<lparr>stream_running := True\<rparr>)) = Inr ()
   \<and> fst (stop_stream (snd (stop_stream (bench_controller, bench_device\<lparr>stream_running := True\<rparr>))))
       = Inl (LJMError STREAM_NOT_RUNNING)
   \<and> fst (new_controller bench_device) = Inr bench_controller
   \<and> fst (stop_stream (bench_controller, snd (new_controller bench_device)))
       = Inl (LJMError STREAM_NOT_RUNNING)
   \<and> fst (stop_stream (bench_controller,
              bench_device\<lparr>registers := (registers bench_device)(''STREAM_OUT0_ENABLE'' \<mapsto> 1, ''DAC0'' \<mapsto> 9 / 2)\<rparr>))
       = Inl (LJMError STREAM_NOT_RUNNING)
   \<and> registers (snd (snd (stop_stream (bench_controller,
              bench_device\<lparr>registers := (registers bench_device)(''STREAM_OUT0_ENABLE'' \<mapsto> 1, ''DAC0'' \<mapsto> 9 / 2)\<rparr>))))
         ''STREAM_OUT0_ENABLE'' = Some 1
   \<and> registers (snd (snd (stop_stream (bench_controller,
              bench_device\<lparr>registers := (registers bench_device)(''STREAM_OUT0_ENABLE'' \<mapsto> 1, ''DAC0'' \<mapsto> 9 / 2)\<rparr>))))
         ''DAC0'' = Some (9 / 2)"
proof -
  let ?run = "bench_device\<lparr>stream_running := True\<rparr>"
  let ?left = "bench_device\<lparr>registers := (registers bench_device)(''STREAM_OUT0_ENABLE'' \<mapsto> 1, ''DAC0'' \<mapsto> 9 / 2)\<rparr>"
  have first: "fst (stop_stream (bench_controller, ?run)) = Inr ()"
    by (simp add: stop_stream_def disable_ttl_stream_def bench_device_def ljm_call_def
          andThen_def on_device_def assign_def eWriteName_def except_LJMError_pass_def eStreamStop_def
          write_optional_register_def set_fio0_state_def)
  have idle1: "\<not> stream_running (snd (snd (stop_stream (bench_controller, ?run))))"
    by (simp add: stop_stream_def disable_ttl_stream_def bench_device_def ljm_call_def
          andThen_def on_device_def assign_def eWriteName_def except_LJMError_pass_def eStreamStop_def
          write_optional_register_def set_fio0_state_def)
  have quiet1: "outcomes (snd (snd (stop_stream (bench_controller, ?run)))) = []"
    by (simp add: stop_stream_def disable_ttl_stream_def bench_device_def ljm_call_def
          andThen_def on_device_def assign_def eWriteName_def except_LJMError_pass_def eStreamStop_def
          write_optional_register_def set_fio0_state_def)
  have second: "fst (stop_stream (snd (stop_stream (bench_controller, ?run))))
       = Inl (LJMError STREAM_NOT_RUNNING)"
    using stop_stream_raises_when_idle [OF idle1, of "fst (snd (stop_stream (bench_controller, ?run)))"] quiet1
    by simp
  have made: "fst (new_controller bench_device) = Inr bench_controller"
    by (simp add: new_controller_def bench_device_def bench_controller_def ljm_call_def
          configure_channels_def andThen_def on_device_def assign_def eWriteName_def eWriteNames_def
          except_LJMError_pass_def eStreamStop_def write_optional_register_def
          configure_fio0_direction_def set_fio0_state_def Let_def dtT4_def)
  have idle2: "\<not> stream_running (snd (new_controller bench_device))"
    by (simp add: new_controller_def bench_device_def bench_controller_def ljm_call_def
          configure_channels_def andThen_def on_device_def assign_def eWriteName_def eWriteNames_def
          except_LJMError_pass_def eStreamStop_def write_optional_register_def
          configure_fio0_direction_def set_fio0_state_def Let_def dtT4_def)
  have quiet2: "outcomes (snd (new_controller bench_device)) = []"
    by (simp add: new_controller_def bench_device_def bench_controller_def ljm_call_def
          configure_channels_def andThen_def on_device_def assign_def eWriteName_def eWriteNames_def
          except_LJMError_pass_def eStreamStop_def write_optional_register_def
          configure_fio0_direction_def set_fio0_state_def Let_def dtT4_def)
  have fresh: "fst (stop_stream (bench_controller, snd (new_controller bench_device)))
       = Inl (LJMError STREAM_NOT_RUNNING)"
    using stop_stream_raises_when_idle [OF idle2, of bench_controller] quiet2 by simp
  have idle3: "\<not> stream_running ?left" by (simp add: bench_device_def)
  have quiet3: "outcomes ?left = []" by (simp add: bench_device_def)
  have left: "fst (stop_stream (bench_controller, ?left)) = Inl (LJMError STREAM_NOT_RUNNING)
      \<and> registers (snd (snd (stop_stream (bench_controller, ?left)))) ''STREAM_OUT0_ENABLE'' = Some 1
      \<and> registers (snd (snd (stop_stream (bench_controller, ?left)))) ''DAC0'' = Some (9 / 2)"
    using stop_stream_raises_when_idle [OF idle3, of bench_controller] quiet3 by simp
  show ?thesis using first second made fresh left by simp
qed

end
